theory Spec2Isabelle
  imports Complex_Main "HOL-Library.Log_Nat" "HOL-Library.Multiset"
begin

section \<open>JavaScript numbers\<close>

text \<open>
  \<open>performReconciliation\<close> (src/next.config.ts, lines 403--428) computes with JavaScript
  numbers, that is IEEE 754 binary64 values. A finite number is modelled by the rational
  it denotes; \<open>Fin 0\<close> is \<open>+0\<close> and \<open>NegZero\<close> is \<open>-0\<close>. Every arithmetic
  operation computes the exact rational result and rounds it to the nearest binary64
  value, ties to even (\<open>rnd\<close>).
\<close>

datatype jsnum = Fin rat | NegZero | PosInf | NegInf | NaN

text \<open>\<open>ilog2 a\<close> is the binary exponent of \<open>a > 0\<close>: \<open>2^(ilog2 a) \<le> a < 2^(ilog2 a + 1)\<close>.\<close>

definition ilog2 :: "rat \<Rightarrow> int" where
  "ilog2 a = (if 1 \<le> a then bitlen \<lfloor>a\<rfloor> - 1 else - bitlen (\<lceil>1 / a\<rceil> - 1))"

definition round_half_even :: "rat \<Rightarrow> int" where
  "round_half_even x =
     (let f = \<lfloor>x\<rfloor>; r = x - of_int f
      in if r < 1 / 2 then f
         else if 1 / 2 < r then f + 1
         else if even f then f else f + 1)"

text \<open>
  Rounding to binary64: 53 significant bits, the unit in the last place never below
  \<open>2^-1074\<close> (subnormals), overflow to an infinity when the rounded magnitude reaches
  \<open>2^1024\<close>, and a signed zero when a non-zero value rounds to zero.
\<close>

definition rnd :: "rat \<Rightarrow> jsnum" where
  "rnd q =
     (let a = \<bar>q\<bar>;
          e = max (ilog2 a - 52) (- 1074);
          m = round_half_even (a / (2 powi e));
          v = of_int m * (2 powi e)
      in if 2 powi 1024 \<le> v then (if 0 < q then PosInf else NegInf)
         else if m = 0 then (if q < 0 then NegZero else Fin 0)
         else Fin (if q < 0 then - v else v))"

text \<open>A decimal literal of the source (\<open>0\<close>, \<open>0.015\<close>) or of a JSON document.\<close>

definition lit :: "rat \<Rightarrow> jsnum" where
  "lit q = rnd q"

text \<open>The operator \<open>+\<close> on two numbers.\<close>

fun js_add :: "jsnum \<Rightarrow> jsnum \<Rightarrow> jsnum" where
  "js_add NaN _ = NaN"
| "js_add _ NaN = NaN"
| "js_add PosInf NegInf = NaN"
| "js_add NegInf PosInf = NaN"
| "js_add PosInf _ = PosInf"
| "js_add _ PosInf = PosInf"
| "js_add NegInf _ = NegInf"
| "js_add _ NegInf = NegInf"
| "js_add NegZero y = y"
| "js_add x NegZero = x"
| "js_add (Fin x) (Fin y) = (if x + y = 0 then Fin 0 else rnd (x + y))"

fun js_neg :: "jsnum \<Rightarrow> jsnum" where
  "js_neg NaN = NaN"
| "js_neg PosInf = NegInf"
| "js_neg NegInf = PosInf"
| "js_neg NegZero = Fin 0"
| "js_neg (Fin x) = (if x = 0 then NegZero else Fin (- x))"

text \<open>The operator \<open>-\<close>: IEEE subtraction is addition of the negated operand.\<close>

definition js_sub :: "jsnum \<Rightarrow> jsnum \<Rightarrow> jsnum" where
  "js_sub x y = js_add x (js_neg y)"

text \<open>\<open>Math.abs\<close>.\<close>

fun js_abs :: "jsnum \<Rightarrow> jsnum" where
  "js_abs NaN = NaN"
| "js_abs PosInf = PosInf"
| "js_abs NegInf = PosInf"
| "js_abs NegZero = Fin 0"
| "js_abs (Fin x) = Fin \<bar>x\<bar>"

fun fin_val :: "jsnum \<Rightarrow> rat" where
  "fin_val (Fin x) = x"
| "fin_val _ = 0"

text \<open>The operator \<open><\<close> on two numbers: false when either is NaN, \<open>-0\<close> equal to \<open>+0\<close>.\<close>

fun js_lt :: "jsnum \<Rightarrow> jsnum \<Rightarrow> bool" where
  "js_lt NaN _ = False"
| "js_lt _ NaN = False"
| "js_lt PosInf _ = False"
| "js_lt _ PosInf = True"
| "js_lt _ NegInf = False"
| "js_lt NegInf _ = True"
| "js_lt x y = (fin_val x < fin_val y)"

section \<open>\<open>toFixed\<close> and \<open>parseFloat\<close>\<close>

text \<open>
  The strings that \<open>Number.prototype.toFixed\<close> returns, by what they denote:
  \<open>Fixed neg n f\<close> is the decimal numeral of \<open>n / 10^f\<close> with \<open>f\<close> fraction digits,
  preceded by \<open>-\<close> when \<open>neg\<close>; \<open>Repr v\<close> is \<open>Number::toString\<close> of \<open>v\<close>
  (\<open>NaN\<close>, \<open>Infinity\<close>, \<open>-Infinity\<close>, or the shortest round-trip numeral of a
  number of magnitude at least \<open>10^21\<close>).
\<close>

datatype numstr = Fixed bool int nat | Repr jsnum

datatype js_error = RangeError | TypeError

text \<open>
  \<open>x.toFixed(f)\<close> (ECMA-262, Number.prototype.toFixed): a RangeError unless
  \<open>0 \<le> f \<le> 100\<close>; \<open>Number::toString\<close> for a non-finite \<open>x\<close> and for
  \<open>|x| \<ge> 10^21\<close>; otherwise the integer \<open>n\<close> for which \<open>n / 10^f - |x|\<close> is closest
  to zero, the larger one of two.
\<close>

definition toFixed :: "jsnum \<Rightarrow> int \<Rightarrow> js_error + numstr" where
  "toFixed x f =
     (if f < 0 \<or> 100 < f then Inl RangeError
      else Inr (case x of
          Fin q \<Rightarrow>
            if 10 ^ 21 \<le> \<bar>q\<bar> then Repr x
            else Fixed (q < 0) \<lfloor>\<bar>q\<bar> * 10 ^ nat f + 1 / 2\<rfloor> (nat f)
        | NegZero \<Rightarrow> Fixed False 0 (nat f)
        | _ \<Rightarrow> Repr x))"

text \<open>
  \<open>parseFloat\<close> on such a string: the number nearest to the decimal numeral, \<open>-0\<close>
  for a negative numeral of zero, and the number itself for \<open>Number::toString\<close> of it
  (\<open>parseFloat("NaN")\<close> is NaN).
\<close>

fun parseFloat :: "numstr \<Rightarrow> jsnum" where
  "parseFloat (Repr v) = v"
| "parseFloat (Fixed neg n f) =
     (if n = 0 then (if neg then NegZero else Fin 0)
      else rnd ((if neg then - of_int n else of_int n) / 10 ^ f))"

section \<open>The data model\<close>

text \<open>
  A transaction's \<open>amount\<close> is declared \<open>number\<close>, but the objects come from
  \<open>JSON.parse\<close> of the model's answer and the code tests \<open>typeof tx.amount\<close>: the
  amount is a number or a value of another type (a string, \<open>null\<close>, \<open>undefined\<close>).
\<close>

datatype jsval = JNumber jsnum | NotNumber

record transaction =
  date :: string
  description :: string
  amount :: jsval

text \<open>
  \<open>Omit<ExtractedData, 'rawPdfText'>\<close>. \<open>None\<close> is \<open>null\<close> for the two balances, and a
  value that \<open>!data.transactions\<close> rejects for the transaction list (an array, even an
  empty one, is truthy).
\<close>

record extracted_data =
  accountHolderName :: "string option"
  accountHolderAddress :: "string option"
  statementDate :: "string option"
  transactions :: "transaction list option"
  startingBalance :: "jsnum option"
  endingBalance :: "jsnum option"

record reconciliation_result =
  calculatedEndingBalance :: "jsnum option"
  difference :: "jsnum option"
  matches :: bool

section \<open>\<open>performReconciliation\<close>\<close>

text \<open>\<open>typeof tx.amount === 'number' && !isNaN(tx.amount)\<close> (line 415).\<close>

fun valid_amount :: "jsval \<Rightarrow> bool" where
  "valid_amount (JNumber v) = (v \<noteq> NaN)"
| "valid_amount NotNumber = False"

text \<open>
  The operand \<open>tx.amount\<close> of \<open>sum + tx.amount\<close> (line 420). The reduction runs over
  \<open>validTransactions\<close> only, where every amount is a number.
\<close>

fun num_of :: "jsval \<Rightarrow> jsnum" where
  "num_of (JNumber v) = v"
| "num_of NotNumber = NaN"

text \<open>Sequencing of calls that may throw.\<close>

definition bind :: "js_error + 'a \<Rightarrow> ('a \<Rightarrow> js_error + 'b) \<Rightarrow> js_error + 'b" where
  "bind m k = (case m of Inl e \<Rightarrow> Inl e | Inr v \<Rightarrow> k v)"

text \<open>Line 415: the transactions that pass the filter.\<close>

definition validTransactions :: "transaction list \<Rightarrow> transaction list" where
  "validTransactions txs = filter (\<lambda>tx. valid_amount (amount tx)) txs"

text \<open>Line 420: \<open>validTransactions.reduce((sum, tx) => sum + tx.amount, 0)\<close>.\<close>

definition sumOfTransactions :: "transaction list \<Rightarrow> jsnum" where
  "sumOfTransactions txs =
     foldl (\<lambda>sum tx. js_add sum (num_of (amount tx))) (lit 0) (validTransactions txs)"

text \<open>Line 424: \<open>Math.abs(difference) < 0.015\<close>.\<close>

definition within_tolerance :: "jsnum \<Rightarrow> bool" where
  "within_tolerance x = js_lt (js_abs x) (lit (15 / 1000))"

text \<open>
  The warning and the log line (lines 404, 407, 416--418, 426) write to the console only
  and are left out; \<open>toFixed(2)\<close> in the log line has the arguments of the calls below.
\<close>

definition performReconciliation :: "extracted_data \<Rightarrow> js_error + reconciliation_result" where
  "performReconciliation data =
     (case (startingBalance data, endingBalance data, transactions data) of
        (Some sb, Some eb, Some txs) \<Rightarrow>
          bind (toFixed (js_add sb (sumOfTransactions txs)) 2) (\<lambda>s1.
            let calculatedEndingBalance = parseFloat s1
            in bind (toFixed eb 2) (\<lambda>s2.
               let statedEndingBalance = parseFloat s2
               in bind (toFixed (js_sub statedEndingBalance calculatedEndingBalance) 2) (\<lambda>s3.
                  let difference = parseFloat s3;
                      matches = within_tolerance difference
                  in Inr \<lparr>calculatedEndingBalance = Some calculatedEndingBalance,
                          difference = Some difference,
                          matches = matches\<rparr>)))
      | _ \<Rightarrow>
          Inr \<lparr>calculatedEndingBalance = None, difference = None, matches = False\<rparr>)"

section \<open>The specification's vocabulary\<close>

text \<open>
  \<open>round2\<close>, "rounded to 2 decimal places": the nearest multiple of \<open>1/100\<close>, a half
  away from zero, as a number; numbers of magnitude \<open>10^21\<close> and more, the infinities
  and NaN are left as they are.
\<close>

definition round2 :: "jsnum \<Rightarrow> jsnum" where
  "round2 x =
     (case x of
        Fin q \<Rightarrow>
          if 10 ^ 21 \<le> \<bar>q\<bar> then x
          else (let n = \<lfloor>\<bar>q\<bar> * 100 + 1 / 2\<rfloor>
                in if n = 0 then (if q < 0 then NegZero else Fin 0)
                   else rnd ((if q < 0 then - of_int n else of_int n) / 100))
      | NegZero \<Rightarrow> Fin 0
      | _ \<Rightarrow> x)"

text \<open>
  A valid amount, as the specification's filtering rule has it: a finite number
  ("transactions whose amount is not a finite number are excluded from the sum").
\<close>

fun finite_amount :: "jsval \<Rightarrow> bool" where
  "finite_amount (JNumber (Fin q)) = True"
| "finite_amount (JNumber NegZero) = True"
| "finite_amount _ = False"

fun is_finite :: "jsnum \<Rightarrow> bool" where
  "is_finite (Fin q) = True"
| "is_finite NegZero = True"
| "is_finite _ = False"

text \<open>
  \<open>\<Sigma>\<close> over the valid amounts in the specification's sense: the finite amounts,
  added from the left to the accumulator.
\<close>

fun sum_amounts :: "jsnum \<Rightarrow> jsval list \<Rightarrow> jsnum" where
  "sum_amounts acc [] = acc"
| "sum_amounts acc (a # as) =
     (if finite_amount a then sum_amounts (js_add acc (num_of a)) as else sum_amounts acc as)"

text \<open>
  \<open>\<Sigma>\<close> over the amounts that are numbers other than NaN (an infinite amount is one),
  added from the left to the accumulator.
\<close>

fun sum_numbers :: "jsnum \<Rightarrow> jsval list \<Rightarrow> jsnum" where
  "sum_numbers acc [] = acc"
| "sum_numbers acc (JNumber v # vs) =
     (if v = NaN then sum_numbers acc vs else sum_numbers (js_add acc v) vs)"
| "sum_numbers acc (NotNumber # vs) = sum_numbers acc vs"

text \<open>
  Decimal inputs. \<open>cents_of x\<close> is the whole number of hundredths nearest to \<open>x\<close>, and
  \<open>decimal2 x\<close> says that \<open>x\<close> is the number a decimal numeral with at most two
  fraction digits denotes (\<open>1200\<close>, \<open>-150.01\<close>, \<open>0.1\<close>).
\<close>

definition cents_of :: "jsnum \<Rightarrow> int" where
  "cents_of x = \<lfloor>fin_val x * 100 + 1 / 2\<rfloor>"

definition decimal2 :: "jsnum \<Rightarrow> bool" where
  "decimal2 x = (x = lit (of_int (cents_of x) / 100))"

text \<open>The hundredths of the valid amounts, in the order of the list.\<close>

definition cents_list :: "transaction list \<Rightarrow> int list" where
  "cents_list txs = map (\<lambda>tx. cents_of (num_of (amount tx))) (validTransactions txs)"

text \<open>
  An input at the scale of a bank statement: the balances and the valid amounts are
  decimal numbers with at most two fraction digits, there are at most 10 000 valid
  transactions, and \<open>|startingBalance|\<close> plus the magnitudes of the valid amounts is at
  most 1 000 000 000, as is \<open>|endingBalance|\<close>.
\<close>

definition statement_scale :: "jsnum \<Rightarrow> jsnum \<Rightarrow> transaction list \<Rightarrow> bool" where
  "statement_scale sb eb txs \<longleftrightarrow>
     decimal2 sb \<and> decimal2 eb \<and>
     (\<forall>tx \<in> set (validTransactions txs). decimal2 (num_of (amount tx))) \<and>
     length (validTransactions txs) \<le> 10000 \<and>
     \<bar>cents_of sb\<bar> + (\<Sum>c\<leftarrow>cents_list txs. \<bar>c\<bar>) \<le> 10 ^ 11 \<and>
     \<bar>cents_of eb\<bar> \<le> 10 ^ 11"

text \<open>The operator \<open>===\<close> on two numbers: NaN equals nothing, \<open>-0\<close> equals \<open>+0\<close>.\<close>

definition js_strict_eq :: "jsnum \<Rightarrow> jsnum \<Rightarrow> bool" where
  "js_strict_eq x y \<longleftrightarrow>
     x \<noteq> NaN \<and> y \<noteq> NaN \<and>
     (x = y \<or> (is_finite x \<and> is_finite y \<and> fin_val x = 0 \<and> fin_val y = 0))"

text \<open>Building the inputs of the worked examples.\<close>

definition mk_tx :: "jsval \<Rightarrow> transaction" where
  "mk_tx a = \<lparr>date = ''2024-01-05'', description = ''item'', amount = a\<rparr>"

definition statement ::
  "jsnum option \<Rightarrow> jsnum option \<Rightarrow> transaction list option \<Rightarrow> extracted_data" where
  "statement sb eb txs =
     \<lparr>accountHolderName = None, accountHolderAddress = None, statementDate = None,
      transactions = txs, startingBalance = sb, endingBalance = eb\<rparr>"

section \<open>The value handed to \<open>performReconciliation\<close>\<close>

text \<open>
  \<open>performReconciliation\<close> is called once (line 466), with what \<open>getDetailsFromLlm\<close>
  returns: a fallback object of the declared type, or the output of \<open>JSON.parse\<close>, cast
  to the declared type without validation (line 389) after lines 372--386 have set a
  missing key to \<open>null\<close> and a truthy \<open>transactions\<close> that is not an array to \<open>[]\<close>.
  So a balance is any JSON value, and \<open>transactions\<close> is a falsy value (\<open>None\<close>) or an
  array of any JSON values. \<open>JsonObject\<close> stands for an object or an array.
\<close>

datatype json_value = JsonNull | JsonNumber jsnum | JsonBoolean bool | JsonString string
  | JsonObject

text \<open>
  An element of the array: \<open>null\<close>; an object, of which only the property \<open>amount\<close> is
  read (\<open>NotNumber\<close> when it is missing); or a number, a string or a boolean, whose property
  \<open>amount\<close> is \<open>undefined\<close>.
\<close>

datatype json_element = ElemNull | ElemObject transaction | ElemPrimitive

record json_data =
  json_transactions :: "json_element list option"
  json_startingBalance :: json_value
  json_endingBalance :: json_value

text \<open>
  Line 415 over such an array: reading \<open>tx.amount\<close> throws a TypeError at a \<open>null\<close>
  element.
\<close>

fun filter_valid :: "json_element list \<Rightarrow> js_error + transaction list" where
  "filter_valid [] = Inr []"
| "filter_valid (ElemNull # es) = Inl TypeError"
| "filter_valid (ElemObject tx # es) =
     (case filter_valid es of
        Inl e \<Rightarrow> Inl e
      | Inr vs \<Rightarrow> Inr (if valid_amount (amount tx) then tx # vs else vs))"
| "filter_valid (ElemPrimitive # es) = filter_valid es"

text \<open>
  Line 421, \<open>data.startingBalance + sumOfTransactions\<close> with a number on the right: a
  number for a number, a boolean (\<open>true\<close> is 1) and \<open>null\<close> on the left, and a string
  (\<open>None\<close>) for a string, an array or an object on the left.
\<close>

fun plus_number :: "json_value \<Rightarrow> jsnum \<Rightarrow> jsnum option" where
  "plus_number (JsonNumber x) s = Some (js_add x s)"
| "plus_number (JsonBoolean b) s = Some (js_add (if b then lit 1 else lit 0) s)"
| "plus_number JsonNull s = Some (js_add (lit 0) s)"
| "plus_number (JsonString t) s = None"
| "plus_number JsonObject s = None"

text \<open>
  \<open>(\<dots>).toFixed(2)\<close> on the result of line 421, and \<open>data.endingBalance.toFixed(2)\<close>
  of line 422: only a number has the method \<open>toFixed\<close>; calling it on anything else is a
  TypeError.
\<close>

fun sum_toFixed :: "jsnum option \<Rightarrow> js_error + numstr" where
  "sum_toFixed (Some x) = toFixed x 2"
| "sum_toFixed None = Inl TypeError"

fun balance_toFixed :: "json_value \<Rightarrow> js_error + numstr" where
  "balance_toFixed (JsonNumber x) = toFixed x 2"
| "balance_toFixed _ = Inl TypeError"

text \<open>Lines 403--428 on the value that line 466 passes.\<close>

definition performReconciliation_json :: "json_data \<Rightarrow> js_error + reconciliation_result" where
  "performReconciliation_json data =
     (case json_transactions data of
        None \<Rightarrow> Inr \<lparr>calculatedEndingBalance = None, difference = None, matches = False\<rparr>
      | Some txs \<Rightarrow>
          if json_startingBalance data = JsonNull \<or> json_endingBalance data = JsonNull
          then Inr \<lparr>calculatedEndingBalance = None, difference = None, matches = False\<rparr>
          else
            bind (filter_valid txs) (\<lambda>validTransactions.
            let sumOfTransactions =
                  foldl (\<lambda>sum tx. js_add sum (num_of (amount tx))) (lit 0) validTransactions
            in bind (sum_toFixed (plus_number (json_startingBalance data) sumOfTransactions))
                 (\<lambda>s1.
               let calculatedEndingBalance = parseFloat s1
               in bind (balance_toFixed (json_endingBalance data)) (\<lambda>s2.
                  let statedEndingBalance = parseFloat s2
                  in bind (toFixed (js_sub statedEndingBalance calculatedEndingBalance) 2)
                       (\<lambda>s3.
                     let difference = parseFloat s3;
                         matches = within_tolerance difference
                     in Inr \<lparr>calculatedEndingBalance = Some calculatedEndingBalance,
                             difference = Some difference,
                             matches = matches\<rparr>)))))"

text \<open>An input of the declared type, as such a value.\<close>

definition to_json_value :: "jsnum option \<Rightarrow> json_value" where
  "to_json_value b = (case b of None \<Rightarrow> JsonNull | Some x \<Rightarrow> JsonNumber x)"

definition to_json :: "extracted_data \<Rightarrow> json_data" where
  "to_json d =
     \<lparr>json_transactions = map_option (map ElemObject) (transactions d),
      json_startingBalance = to_json_value (startingBalance d),
      json_endingBalance = to_json_value (endingBalance d)\<rparr>"

text \<open>
  The inputs on which lines 403--428 throw: past the guard of line 406, an element is
  \<open>null\<close>, or \<open>startingBalance\<close> is a string, an array or an object, or
  \<open>endingBalance\<close> is not a number.
\<close>

fun is_text :: "json_value \<Rightarrow> bool" where
  "is_text (JsonString t) = True"
| "is_text JsonObject = True"
| "is_text _ = False"

fun is_number :: "json_value \<Rightarrow> bool" where
  "is_number (JsonNumber x) = True"
| "is_number _ = False"

definition throws_TypeError :: "json_data \<Rightarrow> bool" where
  "throws_TypeError data \<longleftrightarrow>
     (case json_transactions data of
        None \<Rightarrow> False
      | Some txs \<Rightarrow>
          json_startingBalance data \<noteq> JsonNull \<and> json_endingBalance data \<noteq> JsonNull \<and>
          (ElemNull \<in> set txs \<or> is_text (json_startingBalance data) \<or>
           \<not> is_number (json_endingBalance data)))"

section \<open>Rounding to binary64\<close>

lemma ilog2_bounds:
  assumes "0 < a"
  shows "2 powi (ilog2 a) \<le> a \<and> a < 2 powi (ilog2 a + 1)"
proof (cases "1 \<le> a")
  case True
  define F where "F = \<lfloor>a\<rfloor>"
  define b where "b = bitlen F"
  have F: "0 < F" using True by (simp add: F_def)
  from bitlen_bounds [OF F] have lo: "2 ^ nat (b - 1) \<le> F" and hi: "F < 2 ^ nat b"
    by (simp_all add: b_def)
  have b1: "1 \<le> b"
    using F bitlen_eq_zero_iff [of F] bitlen_nonneg [of F] by (simp add: b_def; linarith)
  have il: "ilog2 a = b - 1" using True by (simp add: ilog2_def F_def b_def)
  have "(2::rat) powi (b - 1) = of_int (2 ^ nat (b - 1))"
    using b1 by (simp add: power_int_nonneg_exp)
  also have "\<dots> \<le> of_int F" using lo by (simp only: of_int_le_iff)
  also have "\<dots> \<le> a" by (simp add: F_def)
  finally have A: "2 powi (b - 1) \<le> a" .
  have "a < of_int (F + 1)" using floor_correct [of a] by (simp add: F_def)
  also have "\<dots> \<le> of_int (2 ^ nat b)" using hi by (simp only: of_int_le_iff; simp)
  also have "\<dots> = (2::rat) powi b" using b1 by (simp add: power_int_nonneg_exp)
  finally have B: "a < 2 powi b" .
  show ?thesis using A B by (simp add: il)
next
  case False
  define N where "N = \<lceil>1 / a\<rceil>"
  define b where "b = bitlen (N - 1)"
  have inv: "1 < 1 / a" using False assms by simp
  have N: "0 < N - 1" using inv by (simp add: N_def less_ceiling_iff)
  from bitlen_bounds [OF N] have lo: "2 ^ nat (b - 1) \<le> N - 1" and hi: "N - 1 < 2 ^ nat b"
    by (simp_all add: b_def)
  have b1: "1 \<le> b"
    using N bitlen_eq_zero_iff [of "N - 1"] bitlen_nonneg [of "N - 1"]
    by (simp add: b_def; linarith)
  have il: "ilog2 a = - b" using False by (simp add: ilog2_def N_def b_def)
  have "1 / a \<le> of_int N" by (simp add: N_def)
  also have "\<dots> \<le> of_int (2 ^ nat b)" using hi by (simp only: of_int_le_iff; simp)
  finally have "1 / a \<le> 2 ^ nat b" by simp
  then have "1 / 2 ^ nat b \<le> a" using assms by (simp add: field_simps)
  then have A: "2 powi (- b) \<le> a" using b1 by (simp add: power_int_minus power_int_nonneg_exp field_simps)
  have "(of_int (2 ^ nat (b - 1)) :: rat) \<le> of_int (N - 1)" using lo by (simp only: of_int_le_iff)
  also have "\<dots> < 1 / a" using ceiling_correct [of "1 / a"] by (simp add: N_def)
  finally have "2 ^ nat (b - 1) < 1 / a" by simp
  then have "a < 1 / 2 ^ nat (b - 1)" using assms by (simp add: field_simps)
  moreover have "(2::rat) powi (- b + 1) = 1 / 2 ^ nat (b - 1)"
    using b1 power_int_minus [of "2::rat" "b - 1"] by (simp add: power_int_nonneg_exp field_simps)
  ultimately have B: "a < 2 powi (- b + 1)" by simp
  show ?thesis using A B by (simp add: il)
qed

lemma ilog2_unique:
  assumes "2 powi L \<le> a" and "a < 2 powi (L + 1)"
  shows "ilog2 a = L"
proof -
  have pos: "0 < a" using assms(1) zero_less_power_int [of "2::rat" L] by linarith
  from ilog2_bounds [OF pos] have lo: "2 powi (ilog2 a) \<le> a" and hi: "a < 2 powi (ilog2 a + 1)"
    by simp_all
  have "(2::rat) powi (ilog2 a) < 2 powi (L + 1)" using lo assms(2) by linarith
  then have 1: "ilog2 a < L + 1"
    using power_int_increasing [of "L + 1" "ilog2 a" "2::rat"] by (cases "ilog2 a < L + 1") auto
  have "(2::rat) powi L < 2 powi (ilog2 a + 1)" using hi assms(1) by linarith
  then have 2: "L < ilog2 a + 1"
    using power_int_increasing [of "ilog2 a + 1" L "2::rat"] by (cases "L < ilog2 a + 1") auto
  from 1 2 show ?thesis by linarith
qed

lemma round_half_even_eqI:
  assumes "of_int m - 1 / 2 < x" and "x < of_int m + 1 / 2"
  shows "round_half_even x = m"
proof (cases "of_int m \<le> x")
  case True
  then have "\<lfloor>x\<rfloor> = m" using assms(2) by (intro floor_unique) simp_all
  then show ?thesis using assms(2) by (simp add: round_half_even_def Let_def)
next
  case False
  then have "\<lfloor>x\<rfloor> = m - 1" using assms(1) by (intro floor_unique) simp_all
  then show ?thesis using assms(1) by (simp add: round_half_even_def Let_def)
qed

lemma round_half_even_tie:
  assumes "x = of_int m + 1 / 2"
  shows "round_half_even x = (if even m then m else m + 1)"
proof -
  have "\<lfloor>x\<rfloor> = m" using assms by (intro floor_unique) simp_all
  then show ?thesis using assms by (simp add: round_half_even_def Let_def)
qed

lemma round_half_even_of_int [simp]: "round_half_even (of_int m) = m"
  by (rule round_half_even_eqI) simp_all

lemma round_half_even_ge:
  assumes "of_int k \<le> x"
  shows "k \<le> round_half_even x"
proof -
  have "k \<le> \<lfloor>x\<rfloor>" using assms by (simp add: le_floor_iff)
  then show ?thesis by (simp add: round_half_even_def Let_def)
qed

lemma round_half_even_le:
  "of_int (round_half_even x) \<le> x + 1 / 2"
proof -
  have "of_int \<lfloor>x\<rfloor> \<le> x" by simp
  then show ?thesis by (simp add: round_half_even_def Let_def) linarith
qed

lemma round_half_even_nonneg: "0 \<le> x \<Longrightarrow> 0 \<le> round_half_even x"
  using round_half_even_ge [of 0 x] by simp

lemma floor_numeral_div [simp]:
  "\<lfloor>(numeral a / numeral b :: rat)\<rfloor> = numeral a div numeral b"
  using floor_divide_of_int_eq [of "numeral a" "numeral b", where ?'a = rat] by simp

lemma round_half_even_0 [simp]: "round_half_even 0 = 0"
  using round_half_even_of_int [of 0] by simp

lemma rnd_eval:
  assumes "2 powi L \<le> \<bar>q\<bar>" and "\<bar>q\<bar> < 2 powi (L + 1)"
    and "e = max (L - 52) (- 1074)"
    and "m = round_half_even (\<bar>q\<bar> / 2 powi e)"
    and "v = of_int m * 2 powi e"
  shows "rnd q =
     (if 2 powi 1024 \<le> v then (if 0 < q then PosInf else NegInf)
      else if m = 0 then (if q < 0 then NegZero else Fin 0)
      else Fin (if q < 0 then - v else v))"
proof -
  have il: "ilog2 \<bar>q\<bar> = L" using assms(1,2) by (rule ilog2_unique)
  show ?thesis unfolding rnd_def Let_def il assms(3,4,5) by (rule refl)
qed

lemma rnd_0 [simp]: "rnd 0 = Fin 0"
  by (simp add: rnd_def Let_def)

lemma rnd_not_NaN [simp]: "rnd q \<noteq> NaN"
  by (simp add: rnd_def Let_def)

lemma rnd_ge:
  assumes "2 powi k \<le> q" and "- 1022 \<le> k"
  shows "rnd q = PosInf \<or> (\<exists>v. rnd q = Fin v \<and> 2 powi k \<le> v)"
proof -
  have pos: "0 < q" using assms(1) zero_less_power_int [of "2::rat" k] by linarith
  define L where "L = ilog2 q"
  define e where "e = max (L - 52) (- 1074)"
  define m where "m = round_half_even (q / 2 powi e)"
  define v where "v = of_int m * (2::rat) powi e"
  from ilog2_bounds [OF pos] have lo: "2 powi L \<le> q" and hi: "q < 2 powi (L + 1)"
    by (simp_all add: L_def)
  have "(2::rat) powi k < 2 powi (L + 1)" using assms(1) hi by linarith
  then have kL: "k \<le> L"
    using power_int_increasing [of "L + 1" k "2::rat"] by (cases "k < L + 1") auto
  then have e: "e = L - 52" using assms(2) by (simp add: e_def)
  have "(2::rat) powi L = 2 powi 52 * 2 powi e"
    using power_int_add [of "2::rat" 52 e] by (simp add: e)
  then have "of_int (2 ^ 52) * 2 powi e \<le> q" using lo by simp
  then have "of_int (2 ^ 52) \<le> q / 2 powi e" by (simp add: field_simps)
  then have m52: "2 ^ 52 \<le> m" unfolding m_def by (rule round_half_even_ge)
  then have "(2::rat) powi 52 * 2 powi e \<le> v"
    unfolding v_def by (intro mult_right_mono) (simp_all flip: of_int_le_iff)
  then have "(2::rat) powi L \<le> v" using power_int_add [of "2::rat" 52 e] by (simp add: e)
  moreover have "(2::rat) powi k \<le> 2 powi L" using kL by (intro power_int_increasing) simp_all
  ultimately have vk: "2 powi k \<le> v" by linarith
  have m0: "m \<noteq> 0" using m52 by auto
  have "rnd q = (if 2 powi 1024 \<le> v then PosInf else Fin v)"
    using pos m0 by (simp add: rnd_def Let_def L_def [symmetric] e_def [symmetric]
        m_def [symmetric] v_def [symmetric])
  then show ?thesis using vk by auto
qed

lemma rnd_minus:
  assumes "0 < q"
  shows "rnd (- q) = js_neg (rnd q)"
proof -
  define e where "e = max (ilog2 q - 52) (- 1074)"
  define m where "m = round_half_even (q / 2 powi e)"
  have "m \<noteq> 0 \<Longrightarrow> of_int m * (2::rat) powi e \<noteq> 0" by simp
  then show ?thesis using assms
    by (simp add: rnd_def Let_def e_def [symmetric] m_def [symmetric])
qed

lemma rnd_finite:
  assumes "\<bar>q\<bar> \<le> 2 powi 1023"
  shows "rnd q \<noteq> PosInf \<and> rnd q \<noteq> NegInf"
proof (cases "q = 0")
  case True
  then show ?thesis by simp
next
  case False
  define a where "a = \<bar>q\<bar>"
  define L where "L = ilog2 a"
  define e where "e = max (L - 52) (- 1074)"
  define m where "m = round_half_even (a / 2 powi e)"
  define v where "v = of_int m * (2::rat) powi e"
  have pos: "0 < a" using False by (simp add: a_def)
  from ilog2_bounds [OF pos] have lo: "2 powi L \<le> a" by (simp add: L_def)
  have "(2::rat) powi L < 2 powi 1024"
  proof -
    have "(2::rat) powi L \<le> 2 powi 1023" using lo assms by (simp add: a_def)
    also have "\<dots> < 2 powi 1024" by (intro power_int_strict_increasing) simp_all
    finally show ?thesis .
  qed
  then have L: "L < 1024"
    using power_int_increasing [of 1024 L "2::rat"] by (cases "L < 1024") auto
  then have "e \<le> 971" by (simp add: e_def)
  then have e971: "(2::rat) powi e \<le> 2 powi 971" by (intro power_int_increasing) simp_all
  have "of_int m \<le> a / 2 powi e + 1 / 2" unfolding m_def by (rule round_half_even_le)
  then have "of_int m * 2 powi e \<le> (a / 2 powi e + 1 / 2) * 2 powi e"
    by (intro mult_right_mono) simp_all
  also have "\<dots> = a + 2 powi e / 2" by (simp add: field_simps)
  also have "\<dots> \<le> 2 powi 1023 + 2 powi 971 / 2" using e971 assms by (simp add: a_def)
  also have "\<dots> < 2 powi 1024" by simp
  finally have "v < 2 powi 1024" by (simp add: v_def)
  then show ?thesis
    by (simp add: rnd_def Let_def a_def [symmetric] L_def [symmetric] e_def [symmetric]
        m_def [symmetric] v_def [symmetric])
qed

section \<open>Evaluating the operations\<close>

lemma toFixed_2: "\<exists>s. toFixed x 2 = Inr s \<and> parseFloat s = round2 x"
  by (cases x) (simp_all add: toFixed_def round2_def Let_def)

lemma bind_Inr [simp]: "bind (Inr v) k = k v"
  by (simp add: bind_def)

lemma lit_0 [simp]: "lit 0 = Fin 0"
  by (simp add: lit_def)

lemma sum_numbers_foldl:
  "foldl (\<lambda>sum tx. js_add sum (num_of (amount tx))) acc (validTransactions txs) =
   sum_numbers acc (map amount txs)"
proof (induction txs arbitrary: acc)
  case Nil
  then show ?case by (simp add: validTransactions_def)
next
  case (Cons t ts)
  then show ?case by (cases "amount t") (simp_all add: validTransactions_def)
qed

lemma sumOfTransactions_sum_numbers:
  "sumOfTransactions txs = sum_numbers (Fin 0) (map amount txs)"
  by (simp add: sumOfTransactions_def sum_numbers_foldl)

lemma performReconciliation_present:
  assumes "startingBalance d = Some sb" and "endingBalance d = Some eb"
    and "transactions d = Some txs"
  shows "performReconciliation d =
     Inr \<lparr>calculatedEndingBalance = Some (round2 (js_add sb (sumOfTransactions txs))),
          difference =
            Some (round2 (js_sub (round2 eb) (round2 (js_add sb (sumOfTransactions txs))))),
          matches =
            within_tolerance
              (round2 (js_sub (round2 eb) (round2 (js_add sb (sumOfTransactions txs)))))\<rparr>"
proof -
  define c where "c = js_add sb (sumOfTransactions txs)"
  obtain s1 where s1: "toFixed c 2 = Inr s1" "parseFloat s1 = round2 c"
    using toFixed_2 [of c] by blast
  obtain s2 where s2: "toFixed eb 2 = Inr s2" "parseFloat s2 = round2 eb"
    using toFixed_2 [of eb] by blast
  obtain s3 where s3: "toFixed (js_sub (round2 eb) (round2 c)) 2 = Inr s3"
    "parseFloat s3 = round2 (js_sub (round2 eb) (round2 c))"
    using toFixed_2 [of "js_sub (round2 eb) (round2 c)"] by blast
  show ?thesis
    using assms s1 s2 s3 by (simp add: performReconciliation_def Let_def c_def [symmetric])
qed

lemma performReconciliation_absent:
  assumes "startingBalance d = None \<or> endingBalance d = None \<or> transactions d = None"
  shows "performReconciliation d =
     Inr \<lparr>calculatedEndingBalance = None, difference = None, matches = False\<rparr>"
  using assms by (auto simp add: performReconciliation_def split: option.splits)

lemma sumOfTransactions_skip:
  "sumOfTransactions (xs @ t\<lparr>amount := NotNumber\<rparr> # ys) = sumOfTransactions (xs @ ys)"
  "sumOfTransactions (xs @ t\<lparr>amount := JNumber NaN\<rparr> # ys) = sumOfTransactions (xs @ ys)"
  by (simp_all add: sumOfTransactions_def validTransactions_def)

section \<open>Values of the rounding\<close>

text \<open>
  The rounding at the arguments that the worked examples meet, each checked against the
  binary exponent \<open>L\<close>, the exponent \<open>e\<close> of the unit in the last place and the
  significand \<open>m\<close> of the result.
\<close>

lemma rnd_val_01: "rnd (- 10000000000000000) = Fin (- 10000000000000000)"
  by (subst rnd_eval [where L = 53 and e = 1 and m = 5000000000000000
        and v = 10000000000000000])
     (simp_all add: round_half_even_def Let_def)

lemma rnd_val_02: "rnd (- 9999999999999999) = Fin (- 10000000000000000)"
  by (subst rnd_eval [where L = 53 and e = 1 and m = 5000000000000000
        and v = 10000000000000000])
     (simp_all add: round_half_even_def Let_def)

lemma rnd_val_03: "rnd (- (15001 / 100)) = Fin (- (659750957130711 / 4398046511104))"
  by (subst rnd_eval [where L = 7 and e = "- 45" and m = 5278007657045688
        and v = "659750957130711 / 4398046511104"])
     (simp_all add: round_half_even_def Let_def)

lemma rnd_val_04: "rnd (- 150) = Fin (- 150)"
  by (subst rnd_eval [where L = 7 and e = "- 45" and m = 5277655813324800
        and v = 150])
     (simp_all add: round_half_even_def Let_def)

lemma rnd_val_05: "rnd (- (1 / 100)) = Fin (- (5764607523034235 / 576460752303423488))"
  by (subst rnd_eval [where L = "- 7" and e = "- 59" and m = 5764607523034235
        and v = "5764607523034235 / 576460752303423488"])
     (simp_all add: round_half_even_def Let_def)

lemma rnd_val_06: "rnd (43980465111 / 4398046511104) = Fin (43980465111 / 4398046511104)"
  by (subst rnd_eval [where L = "- 7" and e = "- 59" and m = 5764607523028992
        and v = "43980465111 / 4398046511104"])
     (simp_all add: round_half_even_def Let_def)

lemma rnd_val_07: "rnd (1 / 100) = Fin (5764607523034235 / 576460752303423488)"
  by (subst rnd_eval [where L = "- 7" and e = "- 59" and m = 5764607523034235
        and v = "5764607523034235 / 576460752303423488"])
     (simp_all add: round_half_even_def Let_def)

lemma rnd_val_08: "rnd (45035996273705 / 4503599627370496) = Fin (45035996273705 / 4503599627370496)"
  by (subst rnd_eval [where L = "- 7" and e = "- 59" and m = 5764607523034240
        and v = "45035996273705 / 4503599627370496"])
     (simp_all add: round_half_even_def Let_def)

lemma rnd_val_09: "rnd (149 / 10000) = Fin (4294632604660505 / 288230376151711744)"
  by (subst rnd_eval [where L = "- 7" and e = "- 59" and m = 8589265209321010
        and v = "4294632604660505 / 288230376151711744"])
     (simp_all add: round_half_even_def Let_def)

lemma rnd_val_10: "rnd (3 / 200) = Fin (1080863910568919 / 72057594037927936)"
  by (subst rnd_eval [where L = "- 7" and e = "- 59" and m = 8646911284551352
        and v = "1080863910568919 / 72057594037927936"])
     (simp_all add: round_half_even_def Let_def)

lemma rnd_val_11: "rnd (1 / 10) = Fin (3602879701896397 / 36028797018963968)"
  by (subst rnd_eval [where L = "- 4" and e = "- 56" and m = 7205759403792794
        and v = "3602879701896397 / 36028797018963968"])
     (simp_all add: round_half_even_def Let_def)

lemma rnd_val_12: "rnd (3602879701896397 / 36028797018963968) = Fin (3602879701896397 / 36028797018963968)"
  by (subst rnd_eval [where L = "- 4" and e = "- 56" and m = 7205759403792794
        and v = "3602879701896397 / 36028797018963968"])
     (simp_all add: round_half_even_def Let_def)

lemma rnd_val_13: "rnd (8286623314361713 / 72057594037927936) = Fin (8286623314361713 / 72057594037927936)"
  by (subst rnd_eval [where L = "- 4" and e = "- 56" and m = 8286623314361713
        and v = "8286623314361713 / 72057594037927936"])
     (simp_all add: round_half_even_def Let_def)

lemma rnd_val_14: "rnd (3 / 10) = Fin (5404319552844595 / 18014398509481984)"
  by (subst rnd_eval [where L = "- 2" and e = "- 54" and m = 5404319552844595
        and v = "5404319552844595 / 18014398509481984"])
     (simp_all add: round_half_even_def Let_def)

lemma rnd_val_15: "rnd (14411518807585587 / 36028797018963968) = Fin (3602879701896397 / 9007199254740992)"
  by (subst rnd_eval [where L = "- 2" and e = "- 54" and m = 7205759403792794
        and v = "3602879701896397 / 9007199254740992"])
     (simp_all add: round_half_even_def Let_def)

lemma rnd_val_16: "rnd (41 / 100) = Fin (7385903388887613 / 18014398509481984)"
  by (subst rnd_eval [where L = "- 2" and e = "- 54" and m = 7385903388887613
        and v = "7385903388887613 / 18014398509481984"])
     (simp_all add: round_half_even_def Let_def)

lemma rnd_val_17: "rnd (7475975381435023 / 18014398509481984) = Fin (7475975381435023 / 18014398509481984)"
  by (subst rnd_eval [where L = "- 2" and e = "- 54" and m = 7475975381435023
        and v = "7475975381435023 / 18014398509481984"])
     (simp_all add: round_half_even_def Let_def)

lemma rnd_val_18: "rnd (29903901525740093 / 72057594037927936) = Fin (7475975381435023 / 18014398509481984)"
  by (subst rnd_eval [where L = "- 2" and e = "- 54" and m = 7475975381435023
        and v = "7475975381435023 / 18014398509481984"])
     (simp_all add: round_half_even_def Let_def)

lemma rnd_val_19: "rnd (29903901525740095 / 72057594037927936) = Fin (467248461339689 / 1125899906842624)"
  by (subst rnd_eval [where L = "- 2" and e = "- 54" and m = 7475975381435024
        and v = "467248461339689 / 1125899906842624"])
     (simp_all add: round_half_even_def Let_def)

lemma rnd_val_20: "rnd (467248461339689 / 1125899906842624) = Fin (467248461339689 / 1125899906842624)"
  by (subst rnd_eval [where L = "- 2" and e = "- 54" and m = 7475975381435024
        and v = "467248461339689 / 1125899906842624"])
     (simp_all add: round_half_even_def Let_def)

lemma rnd_val_21: "rnd (21 / 50) = Fin (7566047373982433 / 18014398509481984)"
  by (subst rnd_eval [where L = "- 2" and e = "- 54" and m = 7566047373982433
        and v = "7566047373982433 / 18014398509481984"])
     (simp_all add: round_half_even_def Let_def)

lemma rnd_val_22: "rnd 1 = Fin 1"
  by (subst rnd_eval [where L = 0 and e = "- 52" and m = 4503599627370496
        and v = 1])
     (simp_all add: round_half_even_def Let_def)

lemma rnd_val_23: "rnd (1539272298421289 / 4398046511104) = Fin (1539272298421289 / 4398046511104)"
  by (subst rnd_eval [where L = 8 and e = "- 44" and m = 6157089193685156
        and v = "1539272298421289 / 4398046511104"])
     (simp_all add: round_half_even_def Let_def)

lemma rnd_val_24: "rnd 350 = Fin 350"
  by (subst rnd_eval [where L = 8 and e = "- 44" and m = 6157265115545600
        and v = 350])
     (simp_all add: round_half_even_def Let_def)

lemma rnd_val_25: "rnd 500 = Fin 500"
  by (subst rnd_eval [where L = 8 and e = "- 44" and m = 8796093022208000
        and v = 500])
     (simp_all add: round_half_even_def Let_def)

lemma rnd_val_26: "rnd 1200 = Fin 1200"
  by (subst rnd_eval [where L = 10 and e = "- 42" and m = 5277655813324800
        and v = 1200])
     (simp_all add: round_half_even_def Let_def)

lemma rnd_val_27: "rnd (154999 / 100) = Fin (6816928111746089 / 4398046511104)"
  by (subst rnd_eval [where L = 10 and e = "- 42" and m = 6816928111746089
        and v = "6816928111746089 / 4398046511104"])
     (simp_all add: round_half_even_def Let_def)

lemma rnd_val_28: "rnd (6816928111746089 / 4398046511104) = Fin (6816928111746089 / 4398046511104)"
  by (subst rnd_eval [where L = 10 and e = "- 42" and m = 6816928111746089
        and v = "6816928111746089 / 4398046511104"])
     (simp_all add: round_half_even_def Let_def)

lemma rnd_val_29: "rnd 1550 = Fin 1550"
  by (subst rnd_eval [where L = 10 and e = "- 42" and m = 6816972092211200
        and v = 1550])
     (simp_all add: round_half_even_def Let_def)

lemma rnd_val_30: "rnd 1551 = Fin 1551"
  by (subst rnd_eval [where L = 10 and e = "- 42" and m = 6821370138722304
        and v = 1551])
     (simp_all add: round_half_even_def Let_def)

lemma rnd_val_31: "rnd 10000000000000000 = Fin 10000000000000000"
  by (subst rnd_eval [where L = 53 and e = 1 and m = 5000000000000000
        and v = 10000000000000000])
     (simp_all add: round_half_even_def Let_def)

lemma rnd_val_32: "rnd 10000000000000001 = Fin 10000000000000000"
  by (subst rnd_eval [where L = 53 and e = 1 and m = 5000000000000000
        and v = 10000000000000000])
     (simp_all add: round_half_even_def Let_def)

lemma rnd_val_33: "rnd (- (14999 / 100)) = Fin (- (659662996200489 / 4398046511104))"
  by (subst rnd_eval [where L = 7 and e = "- 45" and m = 5277303969603912
        and v = "659662996200489 / 4398046511104"])
     (simp_all add: round_half_even_def Let_def)

lemma rnd_val_34: "rnd (- 10) = Fin (- 10)"
  by (subst rnd_eval [where L = 3 and e = "- 49" and m = 5629499534213120
        and v = 10])
     (simp_all add: round_half_even_def Let_def)

lemma rnd_val_35: "rnd (- (23148502084684349 / 9007199254740992)) = Fin (- (5787125521171087 / 2251799813685248))"
  by (subst rnd_eval [where L = 1 and e = "- 51" and m = 5787125521171087
        and v = "5787125521171087 / 2251799813685248"])
     (simp_all add: round_half_even_def Let_def)

lemma rnd_val_36: "rnd (- (167 / 100)) = Fin (- (940126422213591 / 562949953421312))"
  by (subst rnd_eval [where L = 0 and e = "- 52" and m = 7521011377708728
        and v = "940126422213591 / 562949953421312"])
     (simp_all add: round_half_even_def Let_def)

lemma rnd_val_37: "rnd (- (940126422213591 / 562949953421312)) = Fin (- (940126422213591 / 562949953421312))"
  by (subst rnd_eval [where L = 0 and e = "- 52" and m = 7521011377708728
        and v = "940126422213591 / 562949953421312"])
     (simp_all add: round_half_even_def Let_def)

lemma rnd_val_38: "rnd (- (8106479329266893 / 9007199254740992)) = Fin (- (8106479329266893 / 9007199254740992))"
  by (subst rnd_eval [where L = "- 1" and e = "- 53" and m = 8106479329266893
        and v = "8106479329266893 / 9007199254740992"])
     (simp_all add: round_half_even_def Let_def)

lemma rnd_val_39: "rnd (- (9 / 10)) = Fin (- (8106479329266893 / 9007199254740992))"
  by (subst rnd_eval [where L = "- 1" and e = "- 53" and m = 8106479329266893
        and v = "8106479329266893 / 9007199254740992"])
     (simp_all add: round_half_even_def Let_def)

lemma rnd_val_40: "rnd (- (43980465111 / 4398046511104)) = Fin (- (43980465111 / 4398046511104))"
  by (subst rnd_eval [where L = "- 7" and e = "- 59" and m = 5764607523028992
        and v = "43980465111 / 4398046511104"])
     (simp_all add: round_half_even_def Let_def)

lemma rnd_val_41: "rnd (- (1 / 9007199254740992)) = Fin (- (1 / 9007199254740992))"
  by (subst rnd_eval [where L = "- 53" and e = "- 105" and m = 4503599627370496
        and v = "1 / 9007199254740992"])
     (simp_all add: round_half_even_def Let_def)

lemma rnd_val_42: "rnd (1 / 50) = Fin (5764607523034235 / 288230376151711744)"
  by (subst rnd_eval [where L = "- 6" and e = "- 58" and m = 5764607523034235
        and v = "5764607523034235 / 288230376151711744"])
     (simp_all add: round_half_even_def Let_def)

lemma rnd_val_43: "rnd (1 / 5) = Fin (3602879701896397 / 18014398509481984)"
  by (subst rnd_eval [where L = "- 3" and e = "- 55" and m = 7205759403792794
        and v = "3602879701896397 / 18014398509481984"])
     (simp_all add: round_half_even_def Let_def)

lemma rnd_val_44: "rnd (5404319552844595 / 18014398509481984) = Fin (5404319552844595 / 18014398509481984)"
  by (subst rnd_eval [where L = "- 2" and e = "- 54" and m = 5404319552844595
        and v = "5404319552844595 / 18014398509481984"])
     (simp_all add: round_half_even_def Let_def)

lemma rnd_val_45: "rnd (10808639105689191 / 36028797018963968) = Fin (1351079888211149 / 4503599627370496)"
  by (subst rnd_eval [where L = "- 2" and e = "- 54" and m = 5404319552844596
        and v = "1351079888211149 / 4503599627370496"])
     (simp_all add: round_half_even_def Let_def)

lemma rnd_val_46: "rnd (1351079888211149 / 4503599627370496) = Fin (1351079888211149 / 4503599627370496)"
  by (subst rnd_eval [where L = "- 2" and e = "- 54" and m = 5404319552844596
        and v = "1351079888211149 / 4503599627370496"])
     (simp_all add: round_half_even_def Let_def)

lemma rnd_val_47: "rnd (1 / 2) = Fin (1 / 2)"
  by (subst rnd_eval [where L = "- 1" and e = "- 53" and m = 4503599627370496
        and v = "1 / 2"])
     (simp_all add: round_half_even_def Let_def)

lemma rnd_val_48: "rnd (5404319552844595 / 9007199254740992) = Fin (5404319552844595 / 9007199254740992)"
  by (subst rnd_eval [where L = "- 1" and e = "- 53" and m = 5404319552844595
        and v = "5404319552844595 / 9007199254740992"])
     (simp_all add: round_half_even_def Let_def)

lemma rnd_val_49: "rnd (3 / 5) = Fin (5404319552844595 / 9007199254740992)"
  by (subst rnd_eval [where L = "- 1" and e = "- 53" and m = 5404319552844595
        and v = "5404319552844595 / 9007199254740992"])
     (simp_all add: round_half_even_def Let_def)

lemma rnd_val_50: "rnd (21617278211378381 / 36028797018963968) = Fin (5404319552844595 / 9007199254740992)"
  by (subst rnd_eval [where L = "- 1" and e = "- 53" and m = 5404319552844595
        and v = "5404319552844595 / 9007199254740992"])
     (simp_all add: round_half_even_def Let_def)

lemma rnd_val_51: "rnd (10808639105689191 / 18014398509481984) = Fin (1351079888211149 / 2251799813685248)"
  by (subst rnd_eval [where L = "- 1" and e = "- 53" and m = 5404319552844596
        and v = "1351079888211149 / 2251799813685248"])
     (simp_all add: round_half_even_def Let_def)

lemma rnd_val_52: "rnd (1351079888211149 / 2251799813685248) = Fin (1351079888211149 / 2251799813685248)"
  by (subst rnd_eval [where L = "- 1" and e = "- 53" and m = 5404319552844596
        and v = "1351079888211149 / 2251799813685248"])
     (simp_all add: round_half_even_def Let_def)

lemma rnd_val_53: "rnd (2026619832316723 / 2251799813685248) = Fin (2026619832316723 / 2251799813685248)"
  by (subst rnd_eval [where L = "- 1" and e = "- 53" and m = 8106479329266892
        and v = "2026619832316723 / 2251799813685248"])
     (simp_all add: round_half_even_def Let_def)

lemma rnd_val_54: "rnd (15042022755417455 / 9007199254740992) = Fin (940126422213591 / 562949953421312)"
  by (subst rnd_eval [where L = 0 and e = "- 52" and m = 7521011377708728
        and v = "940126422213591 / 562949953421312"])
     (simp_all add: round_half_even_def Let_def)

lemma rnd_val_55: "rnd (5787125521171087 / 2251799813685248) = Fin (5787125521171087 / 2251799813685248)"
  by (subst rnd_eval [where L = 1 and e = "- 51" and m = 5787125521171087
        and v = "5787125521171087 / 2251799813685248"])
     (simp_all add: round_half_even_def Let_def)

lemma rnd_val_56: "rnd (257 / 100) = Fin (5787125521171087 / 2251799813685248)"
  by (subst rnd_eval [where L = 1 and e = "- 51" and m = 5787125521171087
        and v = "5787125521171087 / 2251799813685248"])
     (simp_all add: round_half_even_def Let_def)

lemma rnd_val_57: "rnd (1539360259351511 / 4398046511104) = Fin (1539360259351511 / 4398046511104)"
  by (subst rnd_eval [where L = 8 and e = "- 44" and m = 6157441037406044
        and v = "1539360259351511 / 4398046511104"])
     (simp_all add: round_half_even_def Let_def)

lemma rnd_val_58: "rnd 1540 = Fin 1540"
  by (subst rnd_eval [where L = 10 and e = "- 42" and m = 6772991627100160
        and v = 1540])
     (simp_all add: round_half_even_def Let_def)

lemma rnd_val_59: "rnd (6817016072676311 / 4398046511104) = Fin (6817016072676311 / 4398046511104)"
  by (subst rnd_eval [where L = 10 and e = "- 42" and m = 6817016072676311
        and v = "6817016072676311 / 4398046511104"])
     (simp_all add: round_half_even_def Let_def)

lemma rnd_val_60: "rnd (155001 / 100) = Fin (6817016072676311 / 4398046511104)"
  by (subst rnd_eval [where L = 10 and e = "- 42" and m = 6817016072676311
        and v = "6817016072676311 / 4398046511104"])
     (simp_all add: round_half_even_def Let_def)

lemmas rnd_vals =
  rnd_val_01 rnd_val_02 rnd_val_03 rnd_val_04 rnd_val_05 rnd_val_06
  rnd_val_07 rnd_val_08 rnd_val_09 rnd_val_10 rnd_val_11 rnd_val_12
  rnd_val_13 rnd_val_14 rnd_val_15 rnd_val_16 rnd_val_17 rnd_val_18
  rnd_val_19 rnd_val_20 rnd_val_21 rnd_val_22 rnd_val_23 rnd_val_24
  rnd_val_25 rnd_val_26 rnd_val_27 rnd_val_28 rnd_val_29 rnd_val_30
  rnd_val_31 rnd_val_32 rnd_val_33 rnd_val_34 rnd_val_35 rnd_val_36
  rnd_val_37 rnd_val_38 rnd_val_39 rnd_val_40 rnd_val_41 rnd_val_42
  rnd_val_43 rnd_val_44 rnd_val_45 rnd_val_46 rnd_val_47 rnd_val_48
  rnd_val_49 rnd_val_50 rnd_val_51 rnd_val_52 rnd_val_53 rnd_val_54
  rnd_val_55 rnd_val_56 rnd_val_57 rnd_val_58 rnd_val_59 rnd_val_60

section \<open>The tolerance after rounding\<close>

lemma lit_tolerance: "lit (15 / 1000) = Fin (1080863910568919 / 72057594037927936)"
  by (simp add: lit_def rnd_vals)

lemma lit_cent: "lit (1 / 100) = Fin (5764607523034235 / 576460752303423488)"
  by (simp add: lit_def rnd_vals)

lemma lit_minus_cent: "lit (- (1 / 100)) = Fin (- (5764607523034235 / 576460752303423488))"
  by (simp add: lit_def rnd_vals)

lemma within_tolerance_Fin:
  "within_tolerance (Fin v) \<longleftrightarrow> \<bar>v\<bar> < 1080863910568919 / 72057594037927936"
  unfolding within_tolerance_def lit_tolerance by simp

lemma within_tolerance_others [simp]:
  "within_tolerance NegZero" "\<not> within_tolerance PosInf" "\<not> within_tolerance NegInf"
  "\<not> within_tolerance NaN"
  unfolding within_tolerance_def lit_tolerance by simp_all

lemma rnd_two_cents:
  assumes "2 \<le> n"
  shows "rnd (of_int n / 100) = PosInf \<or> (\<exists>v. rnd (of_int n / 100) = Fin v \<and> 1 / 64 \<le> v)"
proof -
  have "(2::rat) / 100 \<le> of_int n / 100" using assms by simp
  then have "(2::rat) powi (- 6) \<le> of_int n / 100" by simp
  from rnd_ge [OF this] show ?thesis by simp
qed

lemma round2_values:
  "round2 x \<in> {lit (- (1 / 100)), NegZero, Fin 0, lit (1 / 100), PosInf, NegInf, NaN} \<or>
   (\<exists>v. round2 x = Fin v \<and> 1 / 64 \<le> \<bar>v\<bar>)"
proof (cases x)
  case (Fin q)
  show ?thesis
  proof (cases "10 ^ 21 \<le> \<bar>q\<bar>")
    case True
    then have "round2 x = Fin q" "1 / 64 \<le> \<bar>q\<bar>" by (simp_all add: Fin round2_def)
    then show ?thesis by blast
  next
    case False
    define n where "n = \<lfloor>\<bar>q\<bar> * 100 + 1 / 2\<rfloor>"
    have n0: "0 \<le> n" by (simp add: n_def)
    have r: "round2 x = (if n = 0 then (if q < 0 then NegZero else Fin 0)
        else if q < 0 then rnd (- (of_int n / 100)) else rnd (of_int n / 100))"
      using False by (simp add: Fin round2_def Let_def n_def)
    consider "n = 0" | "n = 1" | "2 \<le> n" using n0 by linarith
    then show ?thesis
    proof cases
      case 1
      then show ?thesis by (simp add: r)
    next
      case 2
      then show ?thesis by (simp add: r lit_def)
    next
      case 3
      then have pos: "(0::rat) < of_int n / 100" by simp
      from rnd_two_cents [OF 3] show ?thesis
      proof
        assume inf: "rnd (of_int n / 100) = PosInf"
        then have "rnd (- (of_int n / 100)) = NegInf" using rnd_minus [OF pos] by simp
        then show ?thesis using 3 inf by (simp add: r)
      next
        assume "\<exists>v. rnd (of_int n / 100) = Fin v \<and> 1 / 64 \<le> v"
        then obtain v where v: "rnd (of_int n / 100) = Fin v" "1 / 64 \<le> v" by blast
        then have "rnd (- (of_int n / 100)) = Fin (- v)" using rnd_minus [OF pos] by simp
        then show ?thesis using 3 v by (simp add: r)
      qed
    qed
  qed
qed (simp_all add: round2_def)

lemma round2_tolerance:
  "within_tolerance (round2 x) \<longleftrightarrow>
   round2 x \<in> {lit (- (1 / 100)), NegZero, Fin 0, lit (1 / 100)}"
  using round2_values [of x]
  by (auto simp add: within_tolerance_Fin lit_cent lit_minus_cent)


lemma round2_finite:
  assumes "is_finite x"
  shows "is_finite (round2 x)"
proof (cases x)
  case (Fin q)
  show ?thesis
  proof (cases "10 ^ 21 \<le> \<bar>q\<bar>")
    case True
    then show ?thesis by (simp add: Fin round2_def)
  next
    case False
    define n where "n = \<lfloor>\<bar>q\<bar> * 100 + 1 / 2\<rfloor>"
    define p where "p = (if q < 0 then - of_int n else of_int n) / (100::rat)"
    have "of_int n \<le> \<bar>q\<bar> * 100 + 1 / 2" unfolding n_def by (rule of_int_floor_le)
    moreover have "0 \<le> n" by (simp add: n_def)
    ultimately have "\<bar>p\<bar> \<le> 10 ^ 21 + 1" using False by (simp add: p_def)
    also have "\<dots> \<le> 2 powi 1023" by simp
    finally have "rnd p \<noteq> PosInf \<and> rnd p \<noteq> NegInf" by (rule rnd_finite)
    then have "is_finite (rnd p)" using rnd_not_NaN [of p] by (cases "rnd p") simp_all
    then show ?thesis using False
      by (simp add: Fin round2_def Let_def n_def [symmetric] p_def [symmetric])
  qed
qed (use assms in \<open>simp_all add: round2_def\<close>)

lemma js_sub_self:
  assumes "is_finite x"
  shows "js_sub x x = Fin 0"
  using assms by (cases x) (simp_all add: js_sub_def)

lemma floor_one_div_numeral [simp]:
  "\<lfloor>(1 / numeral b :: rat)\<rfloor> = 1 div numeral b"
  using floor_divide_of_int_eq [of 1 "numeral b", where ?'a = rat] by simp

lemma round2_0 [simp]: "round2 (Fin 0) = Fin 0"
  by (simp add: round2_def)

section \<open>Accumulated rounding error\<close>

text \<open>
  One rounding moves a value of magnitude at most \<open>2^K\<close> by at most \<open>2^(K - 53)\<close>. Over a
  sum of decimal amounts at the scale of a bank statement the roundings add up to less
  than half a cent, so that \<open>toFixed(2)\<close> recovers the exact decimal sum.
\<close>

lemma round_half_even_lower: "x - 1 / 2 \<le> of_int (round_half_even x)"
proof -
  have "x < of_int \<lfloor>x\<rfloor> + 1" using floor_correct [of x] by simp
  then show ?thesis by (simp add: round_half_even_def Let_def; linarith)
qed

lemma round_half_even_error: "\<bar>of_int (round_half_even x) - x\<bar> \<le> 1 / 2"
  using round_half_even_lower [of x] round_half_even_le [of x] by linarith

lemma rnd_error:
  assumes "\<bar>q\<bar> \<le> 2 powi K" and "- 1022 \<le> K" and "K \<le> 1023"
  shows "is_finite (rnd q) \<and> \<bar>fin_val (rnd q) - q\<bar> \<le> 2 powi (K - 53)"
proof (cases "q = 0")
  case True
  then show ?thesis by simp
next
  case False
  define a where "a = \<bar>q\<bar>"
  define L where "L = ilog2 a"
  define e where "e = max (L - 52) (- 1074)"
  define m where "m = round_half_even (a / 2 powi e)"
  define v where "v = of_int m * (2::rat) powi e"
  have pos: "0 < a" using False by (simp add: a_def)
  from ilog2_bounds [OF pos] have lo: "2 powi L \<le> a" by (simp add: L_def)
  have "(2::rat) powi K \<le> 2 powi 1023" using assms(3) by (intro power_int_increasing) simp_all
  then have "\<bar>q\<bar> \<le> 2 powi 1023" using assms(1) by linarith
  from rnd_finite [OF this] have noinf: "rnd q \<noteq> PosInf" "rnd q \<noteq> NegInf" by simp_all
  have r: "rnd q = (if 2 powi 1024 \<le> v then (if 0 < q then PosInf else NegInf)
      else if m = 0 then (if q < 0 then NegZero else Fin 0)
      else Fin (if q < 0 then - v else v))"
    by (simp add: rnd_def Let_def a_def [symmetric] L_def [symmetric] e_def [symmetric]
        m_def [symmetric] v_def [symmetric])
  have small: "\<not> 2 powi 1024 \<le> v" using r noinf by (auto split: if_splits)
  have fin: "is_finite (rnd q)" using r small by simp
  have val: "fin_val (rnd q) = (if q < 0 then - v else v)"
    using r small by (simp add: v_def)
  have "L \<le> K"
  proof (rule ccontr)
    assume "\<not> L \<le> K"
    then have "K + 1 \<le> L" by simp
    then have "(2::rat) powi (K + 1) \<le> 2 powi L" by (intro power_int_increasing) simp_all
    moreover have "(2::rat) powi K < 2 powi (K + 1)"
      by (intro power_int_strict_increasing) simp_all
    ultimately show False using lo assms(1) by (simp add: a_def)
  qed
  then have "e \<le> K - 52" using assms(2) by (simp add: e_def)
  then have ek: "(2::rat) powi e \<le> 2 powi (K - 52)" by (intro power_int_increasing) simp_all
  have "\<bar>of_int m - a / 2 powi e\<bar> \<le> 1 / 2" unfolding m_def by (rule round_half_even_error)
  then have "\<bar>of_int m - a / 2 powi e\<bar> * 2 powi e \<le> 1 / 2 * 2 powi e"
    by (intro mult_right_mono) simp_all
  moreover have "\<bar>of_int m - a / 2 powi e\<bar> * 2 powi e = \<bar>v - a\<bar>"
  proof -
    have "\<bar>of_int m - a / 2 powi e\<bar> * 2 powi e = \<bar>(of_int m - a / 2 powi e) * 2 powi e\<bar>"
      by (simp add: abs_mult)
    also have "(of_int m - a / 2 powi e) * 2 powi e = v - a"
      by (simp add: v_def field_simps)
    finally show ?thesis .
  qed
  ultimately have "\<bar>v - a\<bar> \<le> 2 powi e / 2" by simp
  also have "\<dots> \<le> 2 powi (K - 52) / 2" using ek by simp
  also have "\<dots> = 2 powi (K - 53)"
    using power_int_add [of "2::rat" "K - 53" 1] by simp
  finally have "\<bar>v - a\<bar> \<le> 2 powi (K - 53)" .
  moreover have "\<bar>fin_val (rnd q) - q\<bar> = \<bar>v - a\<bar>"
    by (simp add: val a_def abs_if)
  ultimately show ?thesis using fin by simp
qed

lemma rnd_error_30:
  assumes "\<bar>q\<bar> \<le> 2 ^ 30"
  shows "is_finite (rnd q) \<and> \<bar>fin_val (rnd q) - q\<bar> \<le> 1 / 2 ^ 23"
  using rnd_error [of q 30] assms by simp

lemma js_add_error:
  assumes "is_finite x" and "is_finite y" and "\<bar>fin_val x + fin_val y\<bar> \<le> 2 powi K"
    and "- 1022 \<le> K" and "K \<le> 1023"
  shows "is_finite (js_add x y) \<and>
    \<bar>fin_val (js_add x y) - (fin_val x + fin_val y)\<bar> \<le> 2 powi (K - 53)"
proof (cases x)
  case (Fin p)
  show ?thesis
  proof (cases y)
    case (Fin q)
    show ?thesis
    proof (cases "p + q = 0")
      case True
      then show ?thesis using \<open>x = Fin p\<close> Fin by simp
    next
      case False
      then show ?thesis using \<open>x = Fin p\<close> Fin assms rnd_error [of "p + q" K] by simp
    qed
  qed (use assms Fin in simp_all)
next
  case NegZero
  then show ?thesis using assms by (cases y) simp_all
qed (use assms in simp_all)

lemma lit_cents_error:
  assumes "\<bar>c\<bar> \<le> 10 ^ 11"
  shows "is_finite (lit (of_int c / 100)) \<and>
    \<bar>fin_val (lit (of_int c / 100)) - of_int c / 100\<bar> \<le> 1 / 2 ^ 23"
proof -
  have "\<bar>(of_int c :: rat)\<bar> \<le> of_int (10 ^ 11)" using assms by (simp only: of_int_abs [symmetric] of_int_le_iff)
  then have "\<bar>(of_int c :: rat) / 100\<bar> \<le> 2 ^ 30" by simp
  then show ?thesis unfolding lit_def by (rule rnd_error_30)
qed

lemma fold_error:
  fixes S E :: rat
  assumes "\<forall>tx \<in> set vs. decimal2 (num_of (amount tx))"
    and "is_finite s" and "\<bar>fin_val s - S\<bar> \<le> E"
    and "\<bar>S\<bar> * 100 + of_int (\<Sum>tx\<leftarrow>vs. \<bar>cents_of (num_of (amount tx))\<bar>) \<le> 10 ^ 11"
    and "E + 2 * of_nat (length vs) / 2 ^ 23 \<le> 1"
  shows "is_finite (foldl (\<lambda>sum tx. js_add sum (num_of (amount tx))) s vs) \<and>
    \<bar>fin_val (foldl (\<lambda>sum tx. js_add sum (num_of (amount tx))) s vs) -
       (S + of_int (\<Sum>tx\<leftarrow>vs. cents_of (num_of (amount tx))) / 100)\<bar>
    \<le> E + 2 * of_nat (length vs) / 2 ^ 23"
  using assms
proof (induction vs arbitrary: s S E)
  case Nil
  then show ?case by simp
next
  case (Cons t ts)
  define a where "a = num_of (amount t)"
  define c where "c = cents_of a"
  define r where "r = (\<Sum>tx\<leftarrow>ts. \<bar>cents_of (num_of (amount tx))\<bar>)"
  have r0: "0 \<le> r" unfolding r_def by (rule sum_list_nonneg) auto
  have E0: "0 \<le> E" using Cons.prems(3) by linarith
  have a: "a = lit (of_int c / 100)" using Cons.prems(1) by (simp add: a_def c_def decimal2_def)
  have bound: "\<bar>S\<bar> * 100 + of_int \<bar>c\<bar> + of_int r \<le> 10 ^ 11"
    using Cons.prems(4) by (simp add: a_def c_def r_def)
  have "(of_int \<bar>c\<bar> :: rat) \<le> of_int (10 ^ 11)"
    using bound r0 by simp
  then have cb: "\<bar>c\<bar> \<le> 10 ^ 11" by (simp only: of_int_le_iff)
  from lit_cents_error [OF cb] have af: "is_finite a"
    and ae: "\<bar>fin_val a - of_int c / 100\<bar> \<le> 1 / 2 ^ 23" by (simp_all add: a)
  define z where "z = fin_val s + fin_val a"
  define S' where "S' = S + of_int c / 100"
  have len: "E + 2 / 2 ^ 23 + 2 * of_nat (length ts) / 2 ^ 23 \<le> 1"
    using Cons.prems(5) by (simp add: field_simps)
  have "z - S' = (fin_val s - S) + (fin_val a - of_int c / 100)"
    by (simp add: z_def S'_def)
  then have "\<bar>z - S'\<bar> \<le> \<bar>fin_val s - S\<bar> + \<bar>fin_val a - of_int c / 100\<bar>"
    by (simp only: abs_triangle_ineq)
  then have zS: "\<bar>z - S'\<bar> \<le> E + 1 / 2 ^ 23"
    using Cons.prems(3) ae by linarith
  have S'b: "\<bar>S'\<bar> * 100 + of_int r \<le> 10 ^ 11"
  proof -
    have "\<bar>S'\<bar> \<le> \<bar>S\<bar> + \<bar>of_int c / 100\<bar>" unfolding S'_def by (rule abs_triangle_ineq)
    then have "\<bar>S'\<bar> * 100 \<le> \<bar>S\<bar> * 100 + of_int \<bar>c\<bar>" by simp
    then show ?thesis using bound by linarith
  qed
  have "(0::rat) \<le> of_int r" using r0 by simp
  then have "\<bar>S'\<bar> * 100 \<le> 10 ^ 11" using S'b by linarith
  then have S'9: "\<bar>S'\<bar> \<le> 10 ^ 9" by simp
  have "0 \<le> 2 * (of_nat (length ts) :: rat) / 2 ^ 23" by simp
  then have E1: "E + 2 / 2 ^ 23 \<le> 1" using len by linarith
  have "\<bar>z\<bar> \<le> \<bar>S'\<bar> + \<bar>z - S'\<bar>" by linarith
  then have "\<bar>z\<bar> \<le> 10 ^ 9 + 1" using S'9 zS E1 by simp
  then have zb: "\<bar>fin_val s + fin_val a\<bar> \<le> 2 powi 30" by (simp add: z_def)
  from js_add_error [OF Cons.prems(2) af zb]
  have s1f: "is_finite (js_add s a)" and s1e: "\<bar>fin_val (js_add s a) - z\<bar> \<le> 1 / 2 ^ 23"
    by (simp_all add: z_def)
  have s1S: "\<bar>fin_val (js_add s a) - S'\<bar> \<le> E + 2 / 2 ^ 23" using s1e zS by linarith
  have ih: "is_finite (foldl (\<lambda>sum tx. js_add sum (num_of (amount tx))) (js_add s a) ts) \<and>
    \<bar>fin_val (foldl (\<lambda>sum tx. js_add sum (num_of (amount tx))) (js_add s a) ts) -
       (S' + of_int (\<Sum>tx\<leftarrow>ts. cents_of (num_of (amount tx))) / 100)\<bar>
    \<le> E + 2 / 2 ^ 23 + 2 * of_nat (length ts) / 2 ^ 23"
  proof (rule Cons.IH)
    show "\<forall>tx \<in> set ts. decimal2 (num_of (amount tx))" using Cons.prems(1) by simp
    show "is_finite (js_add s a)" by (rule s1f)
    show "\<bar>fin_val (js_add s a) - S'\<bar> \<le> E + 2 / 2 ^ 23" by (rule s1S)
    show "\<bar>S'\<bar> * 100 + of_int (\<Sum>tx\<leftarrow>ts. \<bar>cents_of (num_of (amount tx))\<bar>) \<le> 10 ^ 11"
      using S'b by (simp add: r_def)
    show "E + 2 / 2 ^ 23 + 2 * of_nat (length ts) / 2 ^ 23 \<le> 1" by (rule len)
  qed
  have eq1: "S' + of_int (\<Sum>tx\<leftarrow>ts. cents_of (num_of (amount tx))) / 100 =
    S + of_int (\<Sum>tx\<leftarrow>t # ts. cents_of (num_of (amount tx))) / 100"
    by (simp add: S'_def a_def c_def field_simps)
  have eq2: "E + 2 / 2 ^ 23 + 2 * of_nat (length ts) / 2 ^ 23 =
    E + 2 * of_nat (length (t # ts)) / 2 ^ 23"
    by (simp add: field_simps)
  show ?case using ih unfolding eq1 eq2 by (simp add: a_def)
qed

lemma round2_near:
  assumes "is_finite x" and "\<bar>fin_val x - of_int R / 100\<bar> < 1 / 200" and "\<bar>R\<bar> \<le> 10 ^ 12"
  shows "(R \<noteq> 0 \<longrightarrow> round2 x = lit (of_int R / 100)) \<and>
    (R = 0 \<longrightarrow> round2 x = Fin 0 \<or> round2 x = NegZero)"
proof (cases x)
  case (Fin q)
  define n where "n = \<lfloor>\<bar>q\<bar> * 100 + 1 / 2\<rfloor>"
  have near: "\<bar>q - of_int R / 100\<bar> < 1 / 200" using assms(2) Fin by simp
  then have near100: "\<bar>q * 100 - of_int R\<bar> < 1 / 2" by (simp add: abs_if split: if_splits)
  have "\<bar>(of_int R :: rat)\<bar> \<le> of_int (10 ^ 12)"
    using assms(3) by (simp only: of_int_abs [symmetric] of_int_le_iff)
  then have "\<bar>(of_int R :: rat) / 100\<bar> \<le> 10 ^ 10" by simp
  then have "\<bar>q\<bar> \<le> 10 ^ 10 + 1" using near by linarith
  then have small: "\<not> 10 ^ 21 \<le> \<bar>q\<bar>" by simp
  have absn: "\<bar>\<bar>q\<bar> * 100 - of_int \<bar>R\<bar>\<bar> < 1 / 2" using near100 by (simp add: abs_if split: if_splits)
  have n: "n = \<bar>R\<bar>" unfolding n_def
  proof (rule floor_unique)
    show "of_int \<bar>R\<bar> \<le> \<bar>q\<bar> * 100 + 1 / 2" using absn by linarith
    show "\<bar>q\<bar> * 100 + 1 / 2 < of_int \<bar>R\<bar> + 1" using absn by linarith
  qed
  have r: "round2 x = (if n = 0 then (if q < 0 then NegZero else Fin 0)
      else rnd ((if q < 0 then - of_int n else of_int n) / 100))"
    using small by (simp add: Fin round2_def Let_def n_def)
  show ?thesis
  proof (intro conjI impI)
    assume "R = 0"
    then show "round2 x = Fin 0 \<or> round2 x = NegZero" using r n by simp
  next
    assume R: "R \<noteq> 0"
    show "round2 x = lit (of_int R / 100)"
    proof (cases "0 < R")
      case True
      then have "(1::rat) \<le> of_int R" by simp
      then have "0 < q" using near100 by linarith
      then show ?thesis using r n True by (simp add: lit_def)
    next
      case False
      then have "R < 0" using R by simp
      then have "of_int R \<le> (- 1 :: rat)" by simp
      then have "q < 0" using near100 by linarith
      then show ?thesis using r n \<open>R < 0\<close> by (simp add: lit_def)
    qed
  qed
next
  case NegZero
  then have "\<bar>(of_int R :: rat) / 100\<bar> < 1 / 200" using assms(2) by simp
  then have "\<bar>(of_int R :: rat)\<bar> < 1" by simp
  then have "R = 0" by (simp only: of_int_abs [symmetric] of_int_less_1_iff; simp)
  then show ?thesis using NegZero by (simp add: round2_def)
qed (use assms in simp_all)

lemma within_tolerance_cents:
  "within_tolerance (lit (of_int D / 100)) \<longleftrightarrow> \<bar>D\<bar> \<le> 1"
proof -
  consider "D = 0" | "D = 1" | "D = - 1" | "2 \<le> D" | "D \<le> - 2" by linarith
  then show ?thesis
  proof cases
    case 1
    then show ?thesis by (simp add: within_tolerance_Fin)
  next
    case 2
    then show ?thesis by (simp add: within_tolerance_Fin lit_cent)
  next
    case 3
    then show ?thesis by (simp add: within_tolerance_Fin lit_minus_cent)
  next
    case 4
    from rnd_two_cents [OF 4] show ?thesis using 4
      by (auto simp add: lit_def within_tolerance_Fin)
  next
    case 5
    then have n: "2 \<le> - D" by simp
    have pos: "(0::rat) < of_int (- D) / 100" using 5 by simp
    have eq: "(of_int D :: rat) / 100 = - (of_int (- D) / 100)" by simp
    from rnd_two_cents [OF n] rnd_minus [OF pos] show ?thesis using 5
      unfolding lit_def eq by (auto simp add: within_tolerance_Fin)
  qed
qed

lemma fin_val_js_neg [simp]: "fin_val (js_neg x) = - fin_val x"
  by (cases x) simp_all

lemma is_finite_js_neg [simp]: "is_finite (js_neg x) = is_finite x"
  by (cases x) simp_all

lemma decimal2_error:
  assumes "decimal2 x" and "\<bar>cents_of x\<bar> \<le> 10 ^ 11"
  shows "is_finite x \<and> \<bar>fin_val x - of_int (cents_of x) / 100\<bar> \<le> 1 / 2 ^ 23"
  using lit_cents_error [OF assms(2)] assms(1) by (simp add: decimal2_def)

lemma decimal2_round2:
  assumes "decimal2 x" and "\<bar>cents_of x\<bar> \<le> 10 ^ 11"
  shows "round2 x = x"
proof (cases "cents_of x = 0")
  case True
  then have "x = Fin 0" using assms(1) by (simp add: decimal2_def)
  then show ?thesis by simp
next
  case False
  from decimal2_error [OF assms] have f: "is_finite x"
    and e: "\<bar>fin_val x - of_int (cents_of x) / 100\<bar> < 1 / 200" by simp_all
  have "\<bar>cents_of x\<bar> \<le> 10 ^ 12" using assms(2) by simp
  from round2_near [OF f e this] False have "round2 x = lit (of_int (cents_of x) / 100)"
    by simp
  then show ?thesis using assms(1) by (simp add: decimal2_def)
qed

lemma statement_scale_sum:
  assumes "statement_scale sb eb txs"
  defines "R \<equiv> cents_of sb + sum_list (cents_list txs)"
  shows "is_finite (js_add sb (sumOfTransactions txs)) \<and>
    \<bar>fin_val (js_add sb (sumOfTransactions txs)) - of_int R / 100\<bar> \<le> 20002 / 2 ^ 23 \<and>
    \<bar>R\<bar> \<le> 10 ^ 11"
proof -
  define vs where "vs = validTransactions txs"
  define A where "A = (\<Sum>c\<leftarrow>cents_list txs. \<bar>c\<bar>)"
  define C where "C = sum_list (cents_list txs)"
  define s where "s = sumOfTransactions txs"
  from assms(1) have dsb: "decimal2 sb"
    and dv: "\<forall>tx \<in> set vs. decimal2 (num_of (amount tx))"
    and len: "length vs \<le> 10000"
    and mag: "\<bar>cents_of sb\<bar> + A \<le> 10 ^ 11"
    by (simp_all add: statement_scale_def vs_def A_def)
  have A0: "0 \<le> A" unfolding A_def by (rule sum_list_nonneg) auto
  have CA: "\<bar>C\<bar> \<le> A" unfolding C_def A_def by (rule sum_list_abs)
  have Aeq: "A = (\<Sum>tx\<leftarrow>vs. \<bar>cents_of (num_of (amount tx))\<bar>)"
    by (simp add: A_def cents_list_def vs_def o_def)
  have Ceq: "C = (\<Sum>tx\<leftarrow>vs. cents_of (num_of (amount tx)))"
    by (simp add: C_def cents_list_def vs_def o_def)
  have Ab: "A \<le> 10 ^ 11" using mag by linarith
  have pb: "\<bar>cents_of sb\<bar> \<le> 10 ^ 11" using mag A0 by linarith
  have lenr: "(of_nat (length vs) :: rat) \<le> 10000" using len by (simp flip: of_nat_le_iff)
  have "is_finite (foldl (\<lambda>sum tx. js_add sum (num_of (amount tx))) (Fin 0) vs) \<and>
    \<bar>fin_val (foldl (\<lambda>sum tx. js_add sum (num_of (amount tx))) (Fin 0) vs) -
       (0 + of_int (\<Sum>tx\<leftarrow>vs. cents_of (num_of (amount tx))) / 100)\<bar>
    \<le> 0 + 2 * of_nat (length vs) / 2 ^ 23"
  proof (rule fold_error)
    show "\<forall>tx \<in> set vs. decimal2 (num_of (amount tx))" by (rule dv)
    show "is_finite (Fin 0)" by simp
    show "\<bar>fin_val (Fin 0) - 0\<bar> \<le> 0" by simp
    have "(of_int A :: rat) \<le> of_int (10 ^ 11)" using Ab by (simp only: of_int_le_iff)
    then show "\<bar>0::rat\<bar> * 100 + of_int (\<Sum>tx\<leftarrow>vs. \<bar>cents_of (num_of (amount tx))\<bar>) \<le> 10 ^ 11"
      by (simp add: Aeq)
    show "0 + 2 * (of_nat (length vs) :: rat) / 2 ^ 23 \<le> 1" using lenr by simp
  qed
  then have sf: "is_finite s" and se: "\<bar>fin_val s - of_int C / 100\<bar> \<le> 20000 / 2 ^ 23"
    using lenr by (simp_all add: s_def sumOfTransactions_def vs_def [symmetric] Ceq)
  from decimal2_error [OF dsb pb] have bf: "is_finite sb"
    and be: "\<bar>fin_val sb - of_int (cents_of sb) / 100\<bar> \<le> 1 / 2 ^ 23" by simp_all
  have Req: "(of_int R :: rat) / 100 = of_int (cents_of sb) / 100 + of_int C / 100"
    by (simp add: R_def C_def field_simps)
  have Rb: "\<bar>R\<bar> \<le> 10 ^ 11" using mag CA by (simp add: R_def C_def [symmetric])
  then have "\<bar>(of_int R :: rat)\<bar> \<le> of_int (10 ^ 11)"
    by (simp only: of_int_abs [symmetric] of_int_le_iff)
  then have R9: "\<bar>(of_int R :: rat) / 100\<bar> \<le> 10 ^ 9" by simp
  define z where "z = fin_val sb + fin_val s"
  have "z - of_int R / 100 =
    (fin_val sb - of_int (cents_of sb) / 100) + (fin_val s - of_int C / 100)"
    by (simp add: z_def Req)
  then have "\<bar>z - of_int R / 100\<bar> \<le>
    \<bar>fin_val sb - of_int (cents_of sb) / 100\<bar> + \<bar>fin_val s - of_int C / 100\<bar>"
    by (simp only: abs_triangle_ineq)
  then have ze: "\<bar>z - of_int R / 100\<bar> \<le> 20001 / 2 ^ 23" using be se by linarith
  have "\<bar>z\<bar> \<le> \<bar>of_int R / 100\<bar> + \<bar>z - of_int R / 100\<bar>" by linarith
  then have "\<bar>z\<bar> \<le> 10 ^ 9 + 1" using R9 ze by simp
  then have zb: "\<bar>fin_val sb + fin_val s\<bar> \<le> 2 powi 30" by (simp add: z_def)
  from js_add_error [OF bf sf zb]
  have xf: "is_finite (js_add sb s)" and xe: "\<bar>fin_val (js_add sb s) - z\<bar> \<le> 1 / 2 ^ 23"
    by (simp_all add: z_def)
  have "\<bar>fin_val (js_add sb s) - of_int R / 100\<bar> \<le> 20002 / 2 ^ 23" using xe ze by linarith
  then show ?thesis using xf Rb by (simp add: s_def)
qed

lemma statement_scale_result:
  assumes "startingBalance d = Some sb" and "endingBalance d = Some eb"
    and "transactions d = Some txs" and "statement_scale sb eb txs"
  shows "\<exists>res c. performReconciliation d = Inr res \<and>
    calculatedEndingBalance res = Some c \<and>
    js_strict_eq c (lit (of_int (cents_of sb + sum_list (cents_list txs)) / 100)) \<and>
    difference res =
      Some (lit (of_int (cents_of eb - (cents_of sb + sum_list (cents_list txs))) / 100)) \<and>
    (matches res \<longleftrightarrow> \<bar>cents_of eb - (cents_of sb + sum_list (cents_list txs))\<bar> \<le> 1)"
proof -
  define R where "R = cents_of sb + sum_list (cents_list txs)"
  define r where "r = cents_of eb"
  define x where "x = js_add sb (sumOfTransactions txs)"
  define c where "c = round2 x"
  define st where "st = round2 eb"
  define raw where "raw = js_sub st c"
  from statement_scale_sum [OF assms(4)] have xf: "is_finite x"
    and xe: "\<bar>fin_val x - of_int R / 100\<bar> \<le> 20002 / 2 ^ 23" and Rb: "\<bar>R\<bar> \<le> 10 ^ 11"
    by (simp_all add: x_def R_def)
  from assms(4) have deb: "decimal2 eb" and rb: "\<bar>r\<bar> \<le> 10 ^ 11"
    by (simp_all add: statement_scale_def r_def)
  have res: "performReconciliation d =
     Inr \<lparr>calculatedEndingBalance = Some c, difference = Some (round2 raw),
          matches = within_tolerance (round2 raw)\<rparr>"
    using performReconciliation_present [OF assms(1,2,3)]
    by (simp add: c_def x_def st_def raw_def)
  have xn: "\<bar>fin_val x - of_int R / 100\<bar> < 1 / 200" using xe by simp
  have R12: "\<bar>R\<bar> \<le> 10 ^ 12" using Rb by simp
  from round2_near [OF xf xn R12]
  have c1: "R \<noteq> 0 \<Longrightarrow> c = lit (of_int R / 100)" and c0: "R = 0 \<Longrightarrow> c = Fin 0 \<or> c = NegZero"
    by (simp_all add: c_def)
  have ceq: "js_strict_eq c (lit (of_int R / 100))"
  proof (cases "R = 0")
    case True
    then show ?thesis using c0 by (auto simp add: js_strict_eq_def)
  next
    case False
    then show ?thesis using c1 by (simp add: js_strict_eq_def lit_def)
  qed
  have st: "st = eb" unfolding st_def using deb rb by (intro decimal2_round2) (simp_all add: r_def)
  from decimal2_error [OF deb] rb have stf: "is_finite st"
    and ste: "\<bar>fin_val st - of_int r / 100\<bar> \<le> 1 / 2 ^ 23" by (simp_all add: st r_def)
  have steq: "st = lit (of_int r / 100)" using deb by (simp add: st decimal2_def r_def)
  have cf: "is_finite c" and ce: "\<bar>fin_val c - of_int R / 100\<bar> \<le> 1 / 2 ^ 23"
  proof -
    show "is_finite c" using c0 c1 lit_cents_error [OF Rb] by (cases "R = 0") auto
    show "\<bar>fin_val c - of_int R / 100\<bar> \<le> 1 / 2 ^ 23"
      using c0 c1 lit_cents_error [OF Rb] by (cases "R = 0") auto
  qed
  have diff: "round2 raw = lit (of_int (r - R) / 100)"
  proof (cases "r = R")
    case True
    have "raw = Fin 0"
    proof (cases "R = 0")
      case True
      then have "st = Fin 0" using steq \<open>r = R\<close> by simp
      then show ?thesis using c0 [OF True] by (auto simp add: raw_def js_sub_def)
    next
      case False
      then have "c = st" using c1 steq \<open>r = R\<close> by simp
      then show ?thesis using stf by (simp add: raw_def js_sub_self)
    qed
    then show ?thesis using True by simp
  next
    case False
    define z where "z = fin_val st + fin_val (js_neg c)"
    have "z - of_int (r - R) / 100 = (fin_val st - of_int r / 100) - (fin_val c - of_int R / 100)"
      by (simp add: z_def field_simps)
    then have "\<bar>z - of_int (r - R) / 100\<bar> \<le>
      \<bar>fin_val st - of_int r / 100\<bar> + \<bar>fin_val c - of_int R / 100\<bar>"
      by (simp only: abs_triangle_ineq4)
    then have ze: "\<bar>z - of_int (r - R) / 100\<bar> \<le> 2 / 2 ^ 23" using ste ce by linarith
    have D: "\<bar>r - R\<bar> \<le> 2 * 10 ^ 11" using rb Rb by linarith
    then have "\<bar>(of_int (r - R) :: rat)\<bar> \<le> of_int (2 * 10 ^ 11)"
      by (simp only: of_int_abs [symmetric] of_int_le_iff)
    then have D9: "\<bar>(of_int (r - R) :: rat) / 100\<bar> \<le> 2 * 10 ^ 9" by simp
    have "\<bar>z\<bar> \<le> \<bar>of_int (r - R) / 100\<bar> + \<bar>z - of_int (r - R) / 100\<bar>" by linarith
    then have "\<bar>z\<bar> \<le> 2 * 10 ^ 9 + 1" using D9 ze by simp
    then have zb: "\<bar>fin_val st + fin_val (js_neg c)\<bar> \<le> 2 powi 31" by (simp add: z_def)
    have nf: "is_finite (js_neg c)" using cf by simp
    from js_add_error [OF stf nf zb]
    have rf: "is_finite raw" and re: "\<bar>fin_val raw - z\<bar> \<le> 1 / 2 ^ 22"
      by (simp_all add: raw_def js_sub_def z_def)
    have "\<bar>fin_val raw - of_int (r - R) / 100\<bar> \<le> 1 / 2 ^ 22 + 2 / 2 ^ 23"
      using re ze by linarith
    also have "\<dots> < 1 / 200" by simp
    finally have rn: "\<bar>fin_val raw - of_int (r - R) / 100\<bar> < 1 / 200" .
    have D12: "\<bar>r - R\<bar> \<le> 10 ^ 12" using D by simp
    from round2_near [OF rf rn D12] False show ?thesis by simp
  qed
  show ?thesis
    using res ceq diff within_tolerance_cents [of "r - R"]
    by (simp add: R_def r_def)
qed

section \<open>The tolerance before and after the rounding\<close>

lemma round2_below_tolerance:
  "within_tolerance (round2 x) \<longleftrightarrow> is_finite x \<and> \<bar>fin_val x\<bar> < 15 / 1000"
proof (cases x)
  case (Fin q)
  show ?thesis
  proof (cases "10 ^ 21 \<le> \<bar>q\<bar>")
    case True
    then have "round2 (Fin q) = Fin q" by (simp add: round2_def)
    moreover have "\<not> \<bar>q\<bar> < 1080863910568919 / 72057594037927936" "\<not> \<bar>q\<bar> < 15 / 1000"
      using True by simp_all
    ultimately show ?thesis by (simp add: within_tolerance_Fin Fin)
  next
    case False
    define n where "n = \<lfloor>\<bar>q\<bar> * 100 + 1 / 2\<rfloor>"
    have n0: "0 \<le> n" by (simp add: n_def)
    have r: "round2 (Fin q) = (if n = 0 then (if q < 0 then NegZero else Fin 0)
        else if q < 0 then rnd (- (of_int n / 100)) else rnd (of_int n / 100))"
      using False by (simp add: round2_def Let_def n_def)
    have small: "n < 2 \<longleftrightarrow> \<bar>q\<bar> < 15 / 1000"
    proof -
      have "n < 2 \<longleftrightarrow> \<bar>q\<bar> * 100 + 1 / 2 < of_int 2" unfolding n_def by (rule floor_less_iff)
      moreover have "\<bar>q\<bar> * 100 + 1 / 2 < of_int 2 \<longleftrightarrow> \<bar>q\<bar> < 15 / 1000" by auto
      ultimately show ?thesis by simp
    qed
    consider "n = 0" | "n = 1" | "2 \<le> n" using n0 by linarith
    then show ?thesis
    proof cases
      case 1
      then show ?thesis using small by (simp add: r within_tolerance_Fin Fin)
    next
      case 2
      then show ?thesis using small
        by (simp add: r within_tolerance_Fin lit_cent [unfolded lit_def]
            lit_minus_cent [unfolded lit_def] Fin)
    next
      case 3
      then have pos: "(0::rat) < of_int n / 100" by simp
      have ns: "\<not> \<bar>q\<bar> < 15 / 1000" using 3 small by simp
      from rnd_two_cents [OF 3] show ?thesis
      proof
        assume inf: "rnd (of_int n / 100) = PosInf"
        then have "rnd (- (of_int n / 100)) = NegInf" using rnd_minus [OF pos] by simp
        then show ?thesis using 3 inf ns by (simp add: r Fin)
      next
        assume "\<exists>v. rnd (of_int n / 100) = Fin v \<and> 1 / 64 \<le> v"
        then obtain v where v: "rnd (of_int n / 100) = Fin v" "1 / 64 \<le> v" by blast
        then have "rnd (- (of_int n / 100)) = Fin (- v)" using rnd_minus [OF pos] by simp
        then show ?thesis using 3 v ns by (simp add: r within_tolerance_Fin Fin)
      qed
    qed
  qed
qed (simp_all add: round2_def within_tolerance_Fin)

lemma round2_small:
  "is_finite (round2 x) \<and> \<bar>fin_val (round2 x)\<bar> < 15 / 1000 \<longleftrightarrow>
   is_finite x \<and> \<bar>fin_val x\<bar> < 15 / 1000"
proof -
  have "is_finite (round2 x) \<and> \<bar>fin_val (round2 x)\<bar> < 15 / 1000 \<longleftrightarrow>
    within_tolerance (round2 x)"
    using round2_values [of x]
    by (auto simp add: within_tolerance_Fin lit_cent lit_minus_cent)
  then show ?thesis by (simp add: round2_below_tolerance)
qed

lemma js_add_NegZero_right [simp]: "js_add x NegZero = x"
  by (cases x) simp_all

lemma sum_numbers_finite:
  assumes "\<forall>a \<in> set as. a \<noteq> JNumber PosInf \<and> a \<noteq> JNumber NegInf"
  shows "sum_numbers acc as = sum_amounts acc as"
  using assms
proof (induction as arbitrary: acc)
  case Nil
  then show ?case by simp
next
  case (Cons a as)
  show ?case
  proof (cases a)
    case (JNumber v)
    then show ?thesis using Cons by (cases v) simp_all
  next
    case NotNumber
    then show ?thesis using Cons by simp
  qed
qed

lemma js_strict_eq_common:
  assumes "js_strict_eq a l" and "js_strict_eq b l"
  shows "js_strict_eq b a"
  using assms by (auto simp add: js_strict_eq_def)

lemma validTransactions_mset:
  assumes "mset txs' = mset txs"
  shows "mset (validTransactions txs') = mset (validTransactions txs)"
  using assms by (simp add: validTransactions_def)

lemma statement_scale_mset:
  assumes "mset txs' = mset txs" and "statement_scale sb eb txs"
  shows "statement_scale sb eb txs' \<and> sum_list (cents_list txs') = sum_list (cents_list txs)"
proof -
  from validTransactions_mset [OF assms(1)]
  have m: "mset (validTransactions txs') = mset (validTransactions txs)" .
  then have s: "set (validTransactions txs') = set (validTransactions txs)" by (rule mset_eq_setD)
  from m have l: "length (validTransactions txs') = length (validTransactions txs)"
    by (rule mset_eq_length)
  from m have c: "mset (cents_list txs') = mset (cents_list txs)"
    by (simp add: cents_list_def)
  then have c1: "sum_list (cents_list txs') = sum_list (cents_list txs)"
    by (metis sum_mset_sum_list)
  from c have "mset (map abs (cents_list txs')) = mset (map abs (cents_list txs))" by simp
  then have c2: "(\<Sum>c\<leftarrow>cents_list txs'. \<bar>c\<bar>) = (\<Sum>c\<leftarrow>cents_list txs. \<bar>c\<bar>)"
    by (metis sum_mset_sum_list)
  show ?thesis using assms(2) s l c1 c2 by (simp add: statement_scale_def)
qed

section \<open>The function on the value of line 466\<close>

lemma filter_valid_objects: "filter_valid (map ElemObject txs) = Inr (validTransactions txs)"
  by (induction txs) (simp_all add: validTransactions_def)

lemma filter_valid_cases:
  "(ElemNull \<in> set es \<and> filter_valid es = Inl TypeError) \<or>
   (ElemNull \<notin> set es \<and> (\<exists>vs. filter_valid es = Inr vs))"
proof (induction es)
  case Nil
  then show ?case by simp
next
  case (Cons e es)
  then show ?case by (cases e) auto
qed

lemma sum_toFixed_cases:
  "(is_text b \<and> sum_toFixed (plus_number b s) = Inl TypeError) \<or>
   (\<not> is_text b \<and> (\<exists>t. sum_toFixed (plus_number b s) = Inr t))"
  using toFixed_2 by (cases b) auto

lemma balance_toFixed_cases:
  "(\<not> is_number b \<and> balance_toFixed b = Inl TypeError) \<or>
   (is_number b \<and> (\<exists>t. balance_toFixed b = Inr t))"
  using toFixed_2 by (cases b) auto

lemma bind_Inl [simp]: "bind (Inl e) k = Inl e"
  by (simp add: bind_def)

lemma performReconciliation_json_cases:
  "(throws_TypeError j \<and> performReconciliation_json j = Inl TypeError) \<or>
   (\<not> throws_TypeError j \<and> (\<exists>r. performReconciliation_json j = Inr r))"
proof (cases "json_transactions j")
  case None
  then show ?thesis by (simp add: throws_TypeError_def performReconciliation_json_def)
next
  case (Some txs)
  show ?thesis
  proof (cases "json_startingBalance j = JsonNull \<or> json_endingBalance j = JsonNull")
    case True
    then show ?thesis using Some
      by (auto simp add: throws_TypeError_def performReconciliation_json_def)
  next
    case False
    note guard = this
    from filter_valid_cases [of txs] show ?thesis
    proof (elim disjE conjE exE)
      assume "ElemNull \<in> set txs" "filter_valid txs = Inl TypeError"
      then show ?thesis using Some guard
        by (simp add: throws_TypeError_def performReconciliation_json_def)
    next
      fix vs
      assume n: "ElemNull \<notin> set txs" and vs: "filter_valid txs = Inr vs"
      define s where "s = foldl (\<lambda>sum tx. js_add sum (num_of (amount tx))) (lit 0) vs"
      from sum_toFixed_cases [of "json_startingBalance j" s] show ?thesis
      proof (elim disjE conjE exE)
        assume "is_text (json_startingBalance j)"
          "sum_toFixed (plus_number (json_startingBalance j) s) = Inl TypeError"
        then show ?thesis using Some guard n vs
          by (simp add: throws_TypeError_def performReconciliation_json_def Let_def s_def)
      next
        fix t1
        assume sb: "\<not> is_text (json_startingBalance j)"
          and t1: "sum_toFixed (plus_number (json_startingBalance j) s) = Inr t1"
        from balance_toFixed_cases [of "json_endingBalance j"] show ?thesis
        proof (elim disjE conjE exE)
          assume "\<not> is_number (json_endingBalance j)"
            "balance_toFixed (json_endingBalance j) = Inl TypeError"
          then show ?thesis using Some guard n vs sb t1
            by (simp add: throws_TypeError_def performReconciliation_json_def Let_def s_def)
        next
          fix t2
          assume eb: "is_number (json_endingBalance j)"
            and t2: "balance_toFixed (json_endingBalance j) = Inr t2"
          obtain t3 where t3: "toFixed (js_sub (parseFloat t2) (parseFloat t1)) 2 = Inr t3"
            using toFixed_2 by blast
          show ?thesis using Some guard n vs sb t1 eb t2 t3
            by (simp add: throws_TypeError_def performReconciliation_json_def Let_def s_def)
        qed
      qed
    qed
  qed
qed

lemma performReconciliation_to_json:
  "performReconciliation_json (to_json d) = performReconciliation d"
proof (cases "startingBalance d = None \<or> endingBalance d = None \<or> transactions d = None")
  case True
  then have "performReconciliation_json (to_json d) =
      Inr \<lparr>calculatedEndingBalance = None, difference = None, matches = False\<rparr>"
    by (auto simp add: performReconciliation_json_def to_json_def to_json_value_def
        split: option.splits)
  then show ?thesis using performReconciliation_absent [OF True] by simp
next
  case False
  then obtain sb eb txs where p: "startingBalance d = Some sb" "endingBalance d = Some eb"
    "transactions d = Some txs" by auto
  then show ?thesis
    by (simp add: performReconciliation_json_def performReconciliation_def to_json_def
        to_json_value_def filter_valid_objects sumOfTransactions_def Let_def)
qed

section \<open>Worked examples\<close>

text \<open>
  Each input is written with the decimal literals of a JSON document (\<open>lit\<close>); the
  result is what lines 403--428 return for it.
\<close>

text \<open>Balances 1200 and 1550, amounts 500 and -150.01: 1549.99, 0.01, a match.\<close>

lemma example_within_a_cent:
  "performReconciliation
     (statement (Some (lit 1200)) (Some (lit 1550))
        (Some [mk_tx (JNumber (lit 500)),
               mk_tx (JNumber (lit (- (15001 / 100))))])) =
   Inr \<lparr>calculatedEndingBalance = Some (lit (154999 / 100)), difference = Some (lit (1 / 100)),
        matches = True\<rparr>"
  by (simp add: performReconciliation_def statement_def mk_tx_def sumOfTransactions_def
      validTransactions_def toFixed_def within_tolerance_def js_sub_def lit_def Let_def rnd_vals)

text \<open>Balances 1200 and 1550, amounts 500 and -150: 1550, 0, a match.\<close>

lemma example_exact:
  "performReconciliation
     (statement (Some (lit 1200)) (Some (lit 1550))
        (Some [mk_tx (JNumber (lit 500)),
               mk_tx (JNumber (lit (- 150)))])) =
   Inr \<lparr>calculatedEndingBalance = Some (Fin 1550), difference = Some (Fin 0),
        matches = True\<rparr>"
  by (simp add: performReconciliation_def statement_def mk_tx_def sumOfTransactions_def
      validTransactions_def toFixed_def within_tolerance_def js_sub_def lit_def Let_def rnd_vals)

text \<open>The same with a third amount \<open>Infinity\<close>: \<open>Infinity\<close>, \<open>-Infinity\<close>, no match.\<close>

lemma example_infinite_amount:
  "performReconciliation
     (statement (Some (lit 1200)) (Some (lit 1550))
        (Some [mk_tx (JNumber (lit 500)),
               mk_tx (JNumber (lit (- 150))),
               mk_tx (JNumber PosInf)])) =
   Inr \<lparr>calculatedEndingBalance = Some PosInf, difference = Some NegInf,
        matches = False\<rparr>"
  by (simp add: performReconciliation_def statement_def mk_tx_def sumOfTransactions_def
      validTransactions_def toFixed_def within_tolerance_def js_sub_def lit_def Let_def rnd_vals)

text \<open>Balances 1550 and 1550, no transaction: 1550, 0, a match.\<close>

lemma example_no_transactions:
  "performReconciliation
     (statement (Some (lit 1550)) (Some (lit 1550))
        (Some [])) =
   Inr \<lparr>calculatedEndingBalance = Some (Fin 1550), difference = Some (Fin 0),
        matches = True\<rparr>"
  by (simp add: performReconciliation_def statement_def mk_tx_def sumOfTransactions_def
      validTransactions_def toFixed_def within_tolerance_def js_sub_def lit_def Let_def rnd_vals)

text \<open>The same with one transaction whose amount is not a number.\<close>

lemma example_malformed_only:
  "performReconciliation
     (statement (Some (lit 1550)) (Some (lit 1550))
        (Some [mk_tx NotNumber])) =
   Inr \<lparr>calculatedEndingBalance = Some (Fin 1550), difference = Some (Fin 0),
        matches = True\<rparr>"
  by (simp add: performReconciliation_def statement_def mk_tx_def sumOfTransactions_def
      validTransactions_def toFixed_def within_tolerance_def js_sub_def lit_def Let_def rnd_vals)

text \<open>Balances 1e16 and 1, amounts -1e16 and 1: 0, 1, no match.\<close>

lemma example_large_balance:
  "performReconciliation
     (statement (Some (lit 10000000000000000)) (Some (lit 1))
        (Some [mk_tx (JNumber (lit (- 10000000000000000))),
               mk_tx (JNumber (lit 1))])) =
   Inr \<lparr>calculatedEndingBalance = Some (Fin 0), difference = Some (Fin 1),
        matches = False\<rparr>"
  by (simp add: performReconciliation_def statement_def mk_tx_def sumOfTransactions_def
      validTransactions_def toFixed_def within_tolerance_def js_sub_def lit_def Let_def rnd_vals)

text \<open>Balances 0 and 0.42, amounts 0.1, 0.3, 0.015: 0.42, 0, a match.\<close>

lemma example_half_cent_first:
  "performReconciliation
     (statement (Some (lit 0)) (Some (lit (42 / 100)))
        (Some [mk_tx (JNumber (lit (1 / 10))),
               mk_tx (JNumber (lit (3 / 10))),
               mk_tx (JNumber (lit (15 / 1000)))])) =
   Inr \<lparr>calculatedEndingBalance = Some (lit (42 / 100)), difference = Some (Fin 0),
        matches = True\<rparr>"
  by (simp add: performReconciliation_def statement_def mk_tx_def sumOfTransactions_def
      validTransactions_def toFixed_def within_tolerance_def js_sub_def lit_def Let_def rnd_vals)

text \<open>Balances 0 and 0.42, amounts 0.1, 0.015, 0.3: 0.41, 0.01, a match.\<close>

lemma example_half_cent_second:
  "performReconciliation
     (statement (Some (lit 0)) (Some (lit (42 / 100)))
        (Some [mk_tx (JNumber (lit (1 / 10))),
               mk_tx (JNumber (lit (15 / 1000))),
               mk_tx (JNumber (lit (3 / 10)))])) =
   Inr \<lparr>calculatedEndingBalance = Some (lit (41 / 100)), difference = Some (lit (1 / 100)),
        matches = True\<rparr>"
  by (simp add: performReconciliation_def statement_def mk_tx_def sumOfTransactions_def
      validTransactions_def toFixed_def within_tolerance_def js_sub_def lit_def Let_def rnd_vals)

text \<open>Balances 0 and 1, amounts 1e16, 1, -1e16: 0, 1, no match.\<close>

lemma example_large_first:
  "performReconciliation
     (statement (Some (lit 0)) (Some (lit 1))
        (Some [mk_tx (JNumber (lit 10000000000000000)),
               mk_tx (JNumber (lit 1)),
               mk_tx (JNumber (lit (- 10000000000000000)))])) =
   Inr \<lparr>calculatedEndingBalance = Some (Fin 0), difference = Some (Fin 1),
        matches = False\<rparr>"
  by (simp add: performReconciliation_def statement_def mk_tx_def sumOfTransactions_def
      validTransactions_def toFixed_def within_tolerance_def js_sub_def lit_def Let_def rnd_vals)

text \<open>Balances 0 and 1, amounts 1e16, -1e16, 1: 1, 0, a match.\<close>

lemma example_large_second:
  "performReconciliation
     (statement (Some (lit 0)) (Some (lit 1))
        (Some [mk_tx (JNumber (lit 10000000000000000)),
               mk_tx (JNumber (lit (- 10000000000000000))),
               mk_tx (JNumber (lit 1))])) =
   Inr \<lparr>calculatedEndingBalance = Some (Fin 1), difference = Some (Fin 0),
        matches = True\<rparr>"
  by (simp add: performReconciliation_def statement_def mk_tx_def sumOfTransactions_def
      validTransactions_def toFixed_def within_tolerance_def js_sub_def lit_def Let_def rnd_vals)

text \<open>Balances 1200 and 1540, amounts 500 and -150: 1550, -10, no match.\<close>

lemma example_negative_difference:
  "performReconciliation
     (statement (Some (lit 1200)) (Some (lit 1540))
        (Some [mk_tx (JNumber (lit 500)),
               mk_tx (JNumber (lit (- 150)))])) =
   Inr \<lparr>calculatedEndingBalance = Some (Fin 1550), difference = Some (Fin (- 10)),
        matches = False\<rparr>"
  by (simp add: performReconciliation_def statement_def mk_tx_def sumOfTransactions_def
      validTransactions_def toFixed_def within_tolerance_def js_sub_def lit_def Let_def rnd_vals)

text \<open>Balances 1200 and 1550, amounts 500 and -149.99: 1550.01, -0.01, a match.\<close>

lemma example_minus_a_cent:
  "performReconciliation
     (statement (Some (lit 1200)) (Some (lit 1550))
        (Some [mk_tx (JNumber (lit 500)),
               mk_tx (JNumber (lit (- (14999 / 100))))])) =
   Inr \<lparr>calculatedEndingBalance = Some (lit (155001 / 100)),
        difference = Some (lit (- (1 / 100))), matches = True\<rparr>"
  by (simp add: performReconciliation_def statement_def mk_tx_def sumOfTransactions_def
      validTransactions_def toFixed_def within_tolerance_def js_sub_def lit_def Let_def rnd_vals)

text \<open>Balances 0 and 0.3, amounts 0.1 and 0.2: 0.3, 0, a match.\<close>

lemma example_tenths:
  "performReconciliation
     (statement (Some (lit 0)) (Some (lit (3 / 10)))
        (Some [mk_tx (JNumber (lit (1 / 10))),
               mk_tx (JNumber (lit (2 / 10)))])) =
   Inr \<lparr>calculatedEndingBalance = Some (lit (3 / 10)), difference = Some (Fin 0),
        matches = True\<rparr>"
  by (simp add: performReconciliation_def statement_def mk_tx_def sumOfTransactions_def
      validTransactions_def toFixed_def within_tolerance_def js_sub_def lit_def Let_def rnd_vals)

text \<open>Balances 0 and 0.0149, 0 and 0.015, 0 and 0.02, no transaction.\<close>

lemma example_boundary_0149:
  "performReconciliation
     (statement (Some (lit 0)) (Some (lit (149 / 10000))) (Some [])) =
   Inr \<lparr>calculatedEndingBalance = Some (Fin 0), difference = Some (lit (1 / 100)),
        matches = True\<rparr>"
  by (simp add: performReconciliation_def statement_def mk_tx_def sumOfTransactions_def
      validTransactions_def toFixed_def within_tolerance_def js_sub_def lit_def Let_def rnd_vals)


lemma example_boundary_02:
  "performReconciliation
     (statement (Some (lit 0)) (Some (lit (2 / 100))) (Some [])) =
   Inr \<lparr>calculatedEndingBalance = Some (Fin 0), difference = Some (lit (2 / 100)),
        matches = False\<rparr>"
  by (simp add: performReconciliation_def statement_def mk_tx_def sumOfTransactions_def
      validTransactions_def toFixed_def within_tolerance_def js_sub_def lit_def Let_def rnd_vals)

text \<open>
  Balances 0 and 0, amounts 2.57, -1.67, -0.9 and 2.57, -0.9, -1.67: the calculated
  balance is \<open>-0\<close> for the first order and \<open>+0\<close> for the second.
\<close>

lemma example_negative_zero_first:
  "performReconciliation
     (statement (Some (lit 0)) (Some (lit 0))
        (Some [mk_tx (JNumber (lit (257 / 100))),
               mk_tx (JNumber (lit (- (167 / 100)))),
               mk_tx (JNumber (lit (- (9 / 10))))])) =
   Inr \<lparr>calculatedEndingBalance = Some NegZero, difference = Some (Fin 0),
        matches = True\<rparr>"
  by (simp add: performReconciliation_def statement_def mk_tx_def sumOfTransactions_def
      validTransactions_def toFixed_def within_tolerance_def js_sub_def lit_def Let_def rnd_vals)

lemma example_negative_zero_second:
  "performReconciliation
     (statement (Some (lit 0)) (Some (lit 0))
        (Some [mk_tx (JNumber (lit (257 / 100))),
               mk_tx (JNumber (lit (- (9 / 10)))),
               mk_tx (JNumber (lit (- (167 / 100))))])) =
   Inr \<lparr>calculatedEndingBalance = Some (Fin 0), difference = Some (Fin 0),
        matches = True\<rparr>"
  by (simp add: performReconciliation_def statement_def mk_tx_def sumOfTransactions_def
      validTransactions_def toFixed_def within_tolerance_def js_sub_def lit_def Let_def rnd_vals)

text \<open>
  A \<open>startingBalance\<close> that is the string \<open>"1200.00"\<close>: line 421 concatenates, and a
  string has no method \<open>toFixed\<close>. An array with a \<open>null\<close> element: line 415 reads a
  property of \<open>null\<close>. A \<open>startingBalance\<close> that is \<open>true\<close> counts as 1.
\<close>

lemma example_string_balance:
  "performReconciliation_json
     \<lparr>json_transactions = Some [], json_startingBalance = JsonString ''1200.00'',
      json_endingBalance = JsonNumber (lit 1550)\<rparr> = Inl TypeError"
  by (simp add: performReconciliation_json_def)

lemma example_null_element:
  "performReconciliation_json
     \<lparr>json_transactions = Some [ElemObject (mk_tx (JNumber (lit 500))), ElemNull],
      json_startingBalance = JsonNumber (lit 1200),
      json_endingBalance = JsonNumber (lit 1550)\<rparr> = Inl TypeError"
  by (simp add: performReconciliation_json_def)

lemma example_boolean_balance:
  "performReconciliation_json
     \<lparr>json_transactions = Some [ElemPrimitive, ElemObject (mk_tx NotNumber)],
      json_startingBalance = JsonBoolean True,
      json_endingBalance = JsonNumber (lit 1)\<rparr> =
   Inr \<lparr>calculatedEndingBalance = Some (Fin 1), difference = Some (Fin 0),
        matches = True\<rparr>"
  by (simp add: performReconciliation_json_def mk_tx_def toFixed_def within_tolerance_def
      js_sub_def lit_def Let_def rnd_vals)

text \<open>Balances 0 and 0.6, amounts 0.1, 0.2, 0.3 and 0.3, 0.2, 0.1: 0.6, 0, a match.\<close>

lemma example_tenths_first:
  "performReconciliation
     (statement (Some (lit 0)) (Some (lit (6 / 10)))
        (Some [mk_tx (JNumber (lit (1 / 10))), mk_tx (JNumber (lit (2 / 10))),
               mk_tx (JNumber (lit (3 / 10)))])) =
   Inr \<lparr>calculatedEndingBalance = Some (lit (6 / 10)), difference = Some (Fin 0),
        matches = True\<rparr>"
  by (simp add: performReconciliation_def statement_def mk_tx_def sumOfTransactions_def
      validTransactions_def toFixed_def within_tolerance_def js_sub_def lit_def Let_def rnd_vals)

lemma example_tenths_second:
  "performReconciliation
     (statement (Some (lit 0)) (Some (lit (6 / 10)))
        (Some [mk_tx (JNumber (lit (3 / 10))), mk_tx (JNumber (lit (2 / 10))),
               mk_tx (JNumber (lit (1 / 10)))])) =
   Inr \<lparr>calculatedEndingBalance = Some (lit (6 / 10)), difference = Some (Fin 0),
        matches = True\<rparr>"
  by (simp add: performReconciliation_def statement_def mk_tx_def sumOfTransactions_def
      validTransactions_def toFixed_def within_tolerance_def js_sub_def lit_def Let_def rnd_vals)

lemma example_tenths_sums:
  "sumOfTransactions
     [mk_tx (JNumber (lit (1 / 10))), mk_tx (JNumber (lit (2 / 10))),
      mk_tx (JNumber (lit (3 / 10)))] \<noteq>
   sumOfTransactions
     [mk_tx (JNumber (lit (3 / 10))), mk_tx (JNumber (lit (2 / 10))),
      mk_tx (JNumber (lit (1 / 10)))]"
  by (simp add: sumOfTransactions_def validTransactions_def mk_tx_def lit_def rnd_vals)

section \<open>The claims\<close>

text \<open>
  C1, as stated: for every input in which \<open>startingBalance\<close>, \<open>endingBalance\<close> and the
  transaction list are all present, the Reconciler returns
  \<open>calculatedEndingBalance = round2 (startingBalance + sum of the valid amounts)\<close>,
  \<open>difference = round2 (round2 endingBalance - calculatedEndingBalance)\<close>, and
  \<open>matches\<close> is true exactly when \<open>|difference| < 0.015\<close>. The valid amounts of the
  specification are the finite ones, and the filter of line 415 also keeps an infinite
  amount: with balances 1200 and 1550 and the amounts 500, -150 and \<open>Infinity\<close> the
  formula gives 1550, 0 and a match, and the Reconciler returns \<open>Infinity\<close>,
  \<open>-Infinity\<close> and no match.
\<close>

theorem C1_counterexample:
  "performReconciliation
     (statement (Some (lit 1200)) (Some (lit 1550))
        (Some [mk_tx (JNumber (lit 500)), mk_tx (JNumber (lit (- 150))),
               mk_tx (JNumber PosInf)])) =
   Inr \<lparr>calculatedEndingBalance = Some PosInf, difference = Some NegInf,
        matches = False\<rparr> \<and>
   round2 (js_add (lit 1200)
     (sum_amounts (Fin 0)
        (map amount [mk_tx (JNumber (lit 500)), mk_tx (JNumber (lit (- 150))),
                     mk_tx (JNumber PosInf)]))) = Fin 1550 \<and>
   round2 (js_sub (round2 (lit 1550)) (Fin 1550)) = Fin 0 \<and>
   \<bar>fin_val (Fin 0)\<bar> < 15 / 1000"
proof -
  have c: "round2 (js_add (lit 1200)
     (sum_amounts (Fin 0)
        (map amount [mk_tx (JNumber (lit 500)), mk_tx (JNumber (lit (- 150))),
                     mk_tx (JNumber PosInf)]))) = Fin 1550"
    by (simp add: mk_tx_def round2_def Let_def lit_def rnd_vals)
  have x: "round2 (js_sub (round2 (lit 1550)) (Fin 1550)) = Fin 0"
    by (simp add: round2_def js_sub_def Let_def lit_def rnd_vals)
  have t: "\<bar>fin_val (Fin 0)\<bar> < 15 / 1000" by simp
  show ?thesis
    by (intro conjI) (rule example_infinite_amount, rule c, rule x, rule t)
qed

text \<open>
  C1, amended: for every input in which \<open>startingBalance\<close>, \<open>endingBalance\<close> and the
  transaction list are all present, the Reconciler returns
  \<open>calculatedEndingBalance = round2 (startingBalance + sum of the amounts that are
  numbers other than NaN)\<close>,
  \<open>difference = round2 (round2 endingBalance - calculatedEndingBalance)\<close>, and
  \<open>matches\<close> is true exactly when the difference is finite and its magnitude is below
  \<open>15/1000\<close>. The sum and the additions are those of JavaScript numbers; the sum is the
  sum of the finite amounts when no amount is infinite.
\<close>

theorem C1_reconciliation_formula:
  assumes "startingBalance d = Some sb" and "endingBalance d = Some eb"
    and "transactions d = Some txs"
  shows "performReconciliation d =
     Inr \<lparr>calculatedEndingBalance =
            Some (round2 (js_add sb (sum_numbers (Fin 0) (map amount txs)))),
          difference =
            Some (round2 (js_sub (round2 eb)
              (round2 (js_add sb (sum_numbers (Fin 0) (map amount txs)))))),
          matches =
            (is_finite (round2 (js_sub (round2 eb)
               (round2 (js_add sb (sum_numbers (Fin 0) (map amount txs)))))) \<and>
             \<bar>fin_val (round2 (js_sub (round2 eb)
               (round2 (js_add sb (sum_numbers (Fin 0) (map amount txs))))))\<bar>
               < 15 / 1000)\<rparr> \<and>
     ((\<forall>tx \<in> set txs. amount tx \<noteq> JNumber PosInf \<and> amount tx \<noteq> JNumber NegInf) \<longrightarrow>
        sum_numbers (Fin 0) (map amount txs) = sum_amounts (Fin 0) (map amount txs))"
proof -
  let ?x = "js_sub (round2 eb) (round2 (js_add sb (sum_numbers (Fin 0) (map amount txs))))"
  have "within_tolerance (round2 ?x) \<longleftrightarrow>
      is_finite (round2 ?x) \<and> \<bar>fin_val (round2 ?x)\<bar> < 15 / 1000"
    by (simp only: round2_small round2_below_tolerance)
  moreover have "(\<forall>tx \<in> set txs. amount tx \<noteq> JNumber PosInf \<and> amount tx \<noteq> JNumber NegInf) \<longrightarrow>
      sum_numbers (Fin 0) (map amount txs) = sum_amounts (Fin 0) (map amount txs)"
  proof
    assume a: "\<forall>tx \<in> set txs. amount tx \<noteq> JNumber PosInf \<and> amount tx \<noteq> JNumber NegInf"
    show "sum_numbers (Fin 0) (map amount txs) = sum_amounts (Fin 0) (map amount txs)"
      by (rule sum_numbers_finite) (use a in auto)
  qed
  ultimately show ?thesis
    using performReconciliation_present [OF assms]
    by (simp add: sumOfTransactions_sum_numbers)
qed

theorem C1_witness:
  "performReconciliation
     (statement (Some (lit 1200)) (Some (lit 1550))
        (Some [mk_tx (JNumber (lit 500)), mk_tx (JNumber (lit (- (15001 / 100))))])) =
   Inr \<lparr>calculatedEndingBalance = Some (lit (154999 / 100)),
        difference = Some (lit (1 / 100)), matches = True\<rparr> \<and>
   performReconciliation
     (statement (Some (lit 1200)) (Some (lit 1550))
        (Some [mk_tx (JNumber (lit 500)), mk_tx (JNumber (lit (- (14999 / 100))))])) =
   Inr \<lparr>calculatedEndingBalance = Some (lit (155001 / 100)),
        difference = Some (lit (- (1 / 100))), matches = True\<rparr> \<and>
   performReconciliation
     (statement (Some (lit 1200)) (Some (lit 1540))
        (Some [mk_tx (JNumber (lit 500)), mk_tx (JNumber (lit (- 150)))])) =
   Inr \<lparr>calculatedEndingBalance = Some (Fin 1550), difference = Some (Fin (- 10)),
        matches = False\<rparr> \<and>
   sum_numbers (Fin 0) (map amount [mk_tx (JNumber (lit 500)), mk_tx (JNumber (lit (- 150)))]) =
   sum_amounts (Fin 0) (map amount [mk_tx (JNumber (lit 500)), mk_tx (JNumber (lit (- 150)))])"
  using C1_reconciliation_formula [of
      "statement (Some (lit 1200)) (Some (lit 1550))
        (Some [mk_tx (JNumber (lit 500)), mk_tx (JNumber (lit (- (15001 / 100))))])"
      "lit 1200" "lit 1550"
      "[mk_tx (JNumber (lit 500)), mk_tx (JNumber (lit (- (15001 / 100))))]"]
    C1_reconciliation_formula [of
      "statement (Some (lit 1200)) (Some (lit 1550))
        (Some [mk_tx (JNumber (lit 500)), mk_tx (JNumber (lit (- (14999 / 100))))])"
      "lit 1200" "lit 1550"
      "[mk_tx (JNumber (lit 500)), mk_tx (JNumber (lit (- (14999 / 100))))]"]
    C1_reconciliation_formula [of
      "statement (Some (lit 1200)) (Some (lit 1540))
        (Some [mk_tx (JNumber (lit 500)), mk_tx (JNumber (lit (- 150)))])"
      "lit 1200" "lit 1540"
      "[mk_tx (JNumber (lit 500)), mk_tx (JNumber (lit (- 150)))]"]
  by (simp add: statement_def mk_tx_def round2_def js_sub_def lit_def Let_def rnd_vals)

text \<open>
  C2. For every input where \<open>startingBalance\<close> is absent, or \<open>endingBalance\<close> is
  absent, or the transaction sequence is absent, the Reconciler returns a result with
  \<open>calculatedEndingBalance\<close> and \<open>difference\<close> both absent and \<open>matches = false\<close>;
  the result does not depend on the transactions, so nothing is summed.
\<close>

theorem C2_missing_data:
  assumes "startingBalance d = None \<or> endingBalance d = None \<or> transactions d = None"
  shows "performReconciliation d =
     Inr \<lparr>calculatedEndingBalance = None, difference = None, matches = False\<rparr>"
  using assms by (rule performReconciliation_absent)

theorem C2_witness:
  "performReconciliation (statement None (Some (lit 1550)) (Some [])) =
   Inr \<lparr>calculatedEndingBalance = None, difference = None, matches = False\<rparr>"
  using C2_missing_data [of "statement None (Some (lit 1550)) (Some [])"]
  by (simp add: statement_def)

text \<open>
  C3, as stated: every transaction whose amount is not a finite number is excluded from
  the summation, and the result equals the result on the sub-list of transactions with
  finite numeric amounts. It fails for an infinite amount, which is a number other than
  NaN and passes the filter of line 415: with balances 1200 and 1550 and the amounts
  500, -150 and \<open>Infinity\<close> the result is \<open>Infinity\<close>, \<open>-Infinity\<close>, no match, while
  the finite amounts alone reconcile exactly.
\<close>

theorem C3_counterexample:
  "performReconciliation
     (statement (Some (lit 1200)) (Some (lit 1550))
        (Some [mk_tx (JNumber (lit 500)), mk_tx (JNumber (lit (- 150))),
               mk_tx (JNumber PosInf)])) =
   Inr \<lparr>calculatedEndingBalance = Some PosInf, difference = Some NegInf,
        matches = False\<rparr> \<and>
   filter (\<lambda>tx. finite_amount (amount tx))
     [mk_tx (JNumber (lit 500)), mk_tx (JNumber (lit (- 150))), mk_tx (JNumber PosInf)] =
   [mk_tx (JNumber (lit 500)), mk_tx (JNumber (lit (- 150)))] \<and>
   performReconciliation
     (statement (Some (lit 1200)) (Some (lit 1550))
        (Some [mk_tx (JNumber (lit 500)), mk_tx (JNumber (lit (- 150)))])) =
   Inr \<lparr>calculatedEndingBalance = Some (Fin 1550), difference = Some (Fin 0),
        matches = True\<rparr>"
proof -
  have f: "filter (\<lambda>tx. finite_amount (amount tx))
     [mk_tx (JNumber (lit 500)), mk_tx (JNumber (lit (- 150))), mk_tx (JNumber PosInf)] =
     [mk_tx (JNumber (lit 500)), mk_tx (JNumber (lit (- 150)))]"
    by (simp add: mk_tx_def lit_def rnd_vals)
  show ?thesis
    by (intro conjI) (rule example_infinite_amount, rule f, rule example_exact)
qed

text \<open>
  C3, amended: every transaction whose amount is not a number, or is NaN, is excluded
  from the summation (with or without it, wherever it stands, the sum is the same), and
  the result equals the result on the sub-list of transactions whose amounts are numbers
  other than NaN.
\<close>

theorem C3_invalid_amounts_excluded:
  "sumOfTransactions (xs @ t\<lparr>amount := NotNumber\<rparr> # ys) = sumOfTransactions (xs @ ys) \<and>
   sumOfTransactions (xs @ t\<lparr>amount := JNumber NaN\<rparr> # ys) = sumOfTransactions (xs @ ys) \<and>
   performReconciliation (d\<lparr>transactions := Some txs\<rparr>) =
   performReconciliation
     (d\<lparr>transactions := Some (filter (\<lambda>tx. valid_amount (amount tx)) txs)\<rparr>)"
proof -
  have "sumOfTransactions (filter (\<lambda>tx. valid_amount (amount tx)) txs) = sumOfTransactions txs"
    by (simp add: sumOfTransactions_def validTransactions_def)
  then have "performReconciliation (d\<lparr>transactions := Some txs\<rparr>) =
    performReconciliation
      (d\<lparr>transactions := Some (filter (\<lambda>tx. valid_amount (amount tx)) txs)\<rparr>)"
    by (cases "startingBalance d"; cases "endingBalance d")
      (simp_all add: performReconciliation_present performReconciliation_absent)
  then show ?thesis by (simp add: sumOfTransactions_skip)
qed

text \<open>
  C4, as stated: every anomalous input (missing balances, malformed transactions, an
  empty transaction set) gives a non-matching or data-insufficient result, and an empty
  transaction set never yields a matching result with populated numeric fields. It fails:
  equal balances of 1550 with no transaction, or with one transaction whose amount is
  not a number, give \<open>calculatedEndingBalance = 1550\<close>, \<open>difference = 0\<close> and a match.
\<close>

theorem C4_counterexample:
  "performReconciliation (statement (Some (lit 1550)) (Some (lit 1550)) (Some [])) =
   Inr \<lparr>calculatedEndingBalance = Some (Fin 1550), difference = Some (Fin 0),
        matches = True\<rparr> \<and>
   performReconciliation
     (statement (Some (lit 1550)) (Some (lit 1550)) (Some [mk_tx NotNumber])) =
   Inr \<lparr>calculatedEndingBalance = Some (Fin 1550), difference = Some (Fin 0),
        matches = True\<rparr>"
  using example_no_transactions example_malformed_only by simp

text \<open>
  C4, amended: a missing balance or a missing transaction list gives the
  data-insufficient result (numeric fields absent, \<open>matches = false\<close>). A transaction
  list that is empty, or holds only malformed amounts, is reconciled like any other,
  with the sum 0: the numeric fields are populated and \<open>matches\<close> holds exactly when
  \<open>round2 (round2 endingBalance - round2 (startingBalance + 0))\<close> is within the
  tolerance.
\<close>

theorem C4_anomalous_inputs:
  "(startingBalance d = None \<or> endingBalance d = None \<or> transactions d = None \<longrightarrow>
      performReconciliation d =
      Inr \<lparr>calculatedEndingBalance = None, difference = None, matches = False\<rparr>) \<and>
   (startingBalance d = Some sb \<and> endingBalance d = Some eb \<and> transactions d = Some txs \<and>
    (\<forall>tx \<in> set txs. \<not> valid_amount (amount tx)) \<longrightarrow>
      performReconciliation d =
      Inr \<lparr>calculatedEndingBalance = Some (round2 (js_add sb (Fin 0))),
           difference = Some (round2 (js_sub (round2 eb) (round2 (js_add sb (Fin 0))))),
           matches =
             within_tolerance (round2 (js_sub (round2 eb) (round2 (js_add sb (Fin 0)))))\<rparr>)"
proof (intro conjI impI)
  assume "startingBalance d = None \<or> endingBalance d = None \<or> transactions d = None"
  then show "performReconciliation d =
      Inr \<lparr>calculatedEndingBalance = None, difference = None, matches = False\<rparr>"
    by (rule performReconciliation_absent)
next
  assume a: "startingBalance d = Some sb \<and> endingBalance d = Some eb \<and>
    transactions d = Some txs \<and> (\<forall>tx \<in> set txs. \<not> valid_amount (amount tx))"
  then have "validTransactions txs = []" by (simp add: validTransactions_def)
  then have "sumOfTransactions txs = Fin 0" by (simp add: sumOfTransactions_def)
  then show "performReconciliation d =
      Inr \<lparr>calculatedEndingBalance = Some (round2 (js_add sb (Fin 0))),
           difference = Some (round2 (js_sub (round2 eb) (round2 (js_add sb (Fin 0))))),
           matches =
             within_tolerance (round2 (js_sub (round2 eb) (round2 (js_add sb (Fin 0)))))\<rparr>"
    using a performReconciliation_present [of d sb eb txs] by simp
qed

theorem C4_witness:
  "performReconciliation (statement (Some (lit 1550)) None (Some [])) =
   Inr \<lparr>calculatedEndingBalance = None, difference = None, matches = False\<rparr> \<and>
   performReconciliation
     (statement (Some (lit 1550)) (Some (lit 1551)) (Some [mk_tx NotNumber])) =
   Inr \<lparr>calculatedEndingBalance = Some (Fin 1550), difference = Some (Fin 1),
        matches = False\<rparr>"
  using C4_anomalous_inputs [of "statement (Some (lit 1550)) None (Some [])"]
    C4_anomalous_inputs [of
      "statement (Some (lit 1550)) (Some (lit 1551)) (Some [mk_tx NotNumber])"
      "lit 1550" "lit 1551" "[mk_tx NotNumber]"]
  by (simp add: statement_def mk_tx_def round2_def js_sub_def within_tolerance_Fin Let_def
      lit_def rnd_vals)

text \<open>
  C5, as stated: for every input with both balances present whose transaction amounts
  sum exactly to \<open>endingBalance - startingBalance\<close>, the result has \<open>matches = true\<close>
  and \<open>difference = 0\<close>. It fails where the additions round: with
  \<open>startingBalance = 1e16\<close>, \<open>endingBalance = 1\<close> and the amounts \<open>-1e16\<close> and \<open>1\<close>
  the amounts sum exactly to \<open>1 - 1e16\<close>, but \<open>-1e16 + 1\<close> is \<open>-1e16\<close> as a number, so
  the calculated balance is 0, the difference 1, and there is no match. (The sum the
  code computes is also what it computes for \<open>endingBalance - startingBalance\<close>.)
\<close>

theorem C5_counterexample:
  "lit 10000000000000000 = Fin 10000000000000000 \<and>
   lit (- 10000000000000000) = Fin (- 10000000000000000) \<and>
   lit 1 = Fin 1 \<and>
   fin_val (lit (- 10000000000000000)) + fin_val (lit 1) =
     fin_val (lit 1) - fin_val (lit 10000000000000000) \<and>
   sumOfTransactions
     [mk_tx (JNumber (lit (- 10000000000000000))), mk_tx (JNumber (lit 1))] =
     js_sub (lit 1) (lit 10000000000000000) \<and>
   performReconciliation
     (statement (Some (lit 10000000000000000)) (Some (lit 1))
        (Some [mk_tx (JNumber (lit (- 10000000000000000))), mk_tx (JNumber (lit 1))])) =
   Inr \<lparr>calculatedEndingBalance = Some (Fin 0), difference = Some (Fin 1),
        matches = False\<rparr>"
proof -
  have v: "lit 10000000000000000 = Fin 10000000000000000"
    "lit (- 10000000000000000) = Fin (- 10000000000000000)" "lit 1 = Fin 1"
    by (simp_all add: lit_def rnd_vals)
  have e: "fin_val (lit (- 10000000000000000)) + fin_val (lit 1) =
     fin_val (lit 1) - fin_val (lit 10000000000000000)"
    by (simp add: v)
  have f: "sumOfTransactions
     [mk_tx (JNumber (lit (- 10000000000000000))), mk_tx (JNumber (lit 1))] =
     js_sub (lit 1) (lit 10000000000000000)"
    by (simp add: sumOfTransactions_def validTransactions_def mk_tx_def js_sub_def v rnd_vals)
  show ?thesis
    by (intro conjI) (rule v(1), rule v(2), rule v(3), rule e, rule f, rule example_large_balance)
qed

text \<open>
  C5, amended: for every input at the scale of a bank statement (the balances and the
  valid amounts are decimal numbers with at most two fraction digits, at most 10 000
  valid transactions, magnitudes up to 1 000 000 000) whose valid amounts, as decimal
  numbers, sum exactly to \<open>endingBalance - startingBalance\<close>, the result has
  \<open>matches = true\<close> and \<open>difference = 0\<close>, and \<open>calculatedEndingBalance\<close> is
  \<open>endingBalance\<close>. The decimal numbers are counted in hundredths.
\<close>

theorem C5_exact_reconciliation:
  assumes "startingBalance d = Some sb" and "endingBalance d = Some eb"
    and "transactions d = Some txs"
    and "statement_scale sb eb txs"
    and "sum_list (cents_list txs) = cents_of eb - cents_of sb"
  shows "\<exists>r c. performReconciliation d = Inr r \<and> difference r = Some (Fin 0) \<and> matches r \<and>
    calculatedEndingBalance r = Some c \<and> js_strict_eq c eb"
proof -
  from assms(4) have e: "eb = lit (of_int (cents_of eb) / 100)"
    by (simp add: statement_scale_def decimal2_def)
  have s: "cents_of sb + sum_list (cents_list txs) = cents_of eb" using assms(5) by simp
  from statement_scale_result [OF assms(1,2,3,4)] obtain r c where
    r: "performReconciliation d = Inr r" and c: "calculatedEndingBalance r = Some c"
    and q: "js_strict_eq c (lit (of_int (cents_of sb + sum_list (cents_list txs)) / 100))"
    and x: "difference r =
      Some (lit (of_int (cents_of eb - (cents_of sb + sum_list (cents_list txs))) / 100))"
    and m: "matches r \<longleftrightarrow> \<bar>cents_of eb - (cents_of sb + sum_list (cents_list txs))\<bar> \<le> 1"
    by blast
  from q e have q': "js_strict_eq c eb" by (simp add: s)
  from x have x': "difference r = Some (Fin 0)" by (simp add: s)
  from m have m': "matches r" by (simp add: s)
  from r x' m' c q' show ?thesis by blast
qed

theorem C5_witness:
  "statement_scale (lit 0) (lit (3 / 10))
     [mk_tx (JNumber (lit (1 / 10))), mk_tx (JNumber (lit (2 / 10)))] \<and>
   sum_list (cents_list [mk_tx (JNumber (lit (1 / 10))), mk_tx (JNumber (lit (2 / 10)))]) =
     cents_of (lit (3 / 10)) - cents_of (lit 0) \<and>
   fin_val (lit (1 / 10)) + fin_val (lit (2 / 10)) \<noteq> fin_val (lit (3 / 10)) - fin_val (lit 0) \<and>
   (\<exists>r c. performReconciliation
       (statement (Some (lit 0)) (Some (lit (3 / 10)))
          (Some [mk_tx (JNumber (lit (1 / 10))), mk_tx (JNumber (lit (2 / 10)))])) = Inr r \<and>
     difference r = Some (Fin 0) \<and> matches r \<and>
     calculatedEndingBalance r = Some c \<and> js_strict_eq c (lit (3 / 10)))"
proof -
  have h: "statement_scale (lit 0) (lit (3 / 10))
     [mk_tx (JNumber (lit (1 / 10))), mk_tx (JNumber (lit (2 / 10)))]"
    by (simp add: statement_scale_def decimal2_def cents_of_def cents_list_def
        validTransactions_def mk_tx_def lit_def rnd_vals)
  have s: "sum_list (cents_list [mk_tx (JNumber (lit (1 / 10))), mk_tx (JNumber (lit (2 / 10)))]) =
     cents_of (lit (3 / 10)) - cents_of (lit 0)"
    by (simp add: cents_of_def cents_list_def validTransactions_def mk_tx_def lit_def rnd_vals)
  have n: "fin_val (lit (1 / 10)) + fin_val (lit (2 / 10)) \<noteq>
     fin_val (lit (3 / 10)) - fin_val (lit 0)"
    by (simp add: lit_def rnd_vals)
  show ?thesis
    using h s n C5_exact_reconciliation [of
        "statement (Some (lit 0)) (Some (lit (3 / 10)))
          (Some [mk_tx (JNumber (lit (1 / 10))), mk_tx (JNumber (lit (2 / 10)))])"
        "lit 0" "lit (3 / 10)"
        "[mk_tx (JNumber (lit (1 / 10))), mk_tx (JNumber (lit (2 / 10)))]"]
    by (simp add: statement_def)
qed




text \<open>
  C7, as stated: for every input with both balances present and every permutation of its
  transaction list the result is identical. It fails, since the addition of numbers is
  not associative. With balances 0 and 0.42, the amounts 0.1, 0.3, 0.015 give
  \<open>calculatedEndingBalance = 0.42\<close> and \<open>difference = 0\<close>, and the amounts 0.1, 0.015,
  0.3 give 0.41 and 0.01. With balances 0 and 1, the amounts 1e16, 1, -1e16 give
  0, 1 and no match, and the amounts 1e16, -1e16, 1 give 1, 0 and a match.
\<close>

theorem C7_counterexample:
  "mset [mk_tx (JNumber (lit (1 / 10))), mk_tx (JNumber (lit (3 / 10))),
         mk_tx (JNumber (lit (15 / 1000)))] =
   mset [mk_tx (JNumber (lit (1 / 10))), mk_tx (JNumber (lit (15 / 1000))),
         mk_tx (JNumber (lit (3 / 10)))] \<and>
   performReconciliation
     (statement (Some (lit 0)) (Some (lit (42 / 100)))
        (Some [mk_tx (JNumber (lit (1 / 10))), mk_tx (JNumber (lit (3 / 10))),
               mk_tx (JNumber (lit (15 / 1000)))])) =
   Inr \<lparr>calculatedEndingBalance = Some (lit (42 / 100)), difference = Some (Fin 0),
        matches = True\<rparr> \<and>
   performReconciliation
     (statement (Some (lit 0)) (Some (lit (42 / 100)))
        (Some [mk_tx (JNumber (lit (1 / 10))), mk_tx (JNumber (lit (15 / 1000))),
               mk_tx (JNumber (lit (3 / 10)))])) =
   Inr \<lparr>calculatedEndingBalance = Some (lit (41 / 100)), difference = Some (lit (1 / 100)),
        matches = True\<rparr> \<and>
   lit (42 / 100) \<noteq> lit (41 / 100) \<and>
   mset [mk_tx (JNumber (lit 10000000000000000)), mk_tx (JNumber (lit 1)),
         mk_tx (JNumber (lit (- 10000000000000000)))] =
   mset [mk_tx (JNumber (lit 10000000000000000)),
         mk_tx (JNumber (lit (- 10000000000000000))), mk_tx (JNumber (lit 1))] \<and>
   performReconciliation
     (statement (Some (lit 0)) (Some (lit 1))
        (Some [mk_tx (JNumber (lit 10000000000000000)), mk_tx (JNumber (lit 1)),
               mk_tx (JNumber (lit (- 10000000000000000)))])) =
   Inr \<lparr>calculatedEndingBalance = Some (Fin 0), difference = Some (Fin 1),
        matches = False\<rparr> \<and>
   performReconciliation
     (statement (Some (lit 0)) (Some (lit 1))
        (Some [mk_tx (JNumber (lit 10000000000000000)),
               mk_tx (JNumber (lit (- 10000000000000000))), mk_tx (JNumber (lit 1))])) =
   Inr \<lparr>calculatedEndingBalance = Some (Fin 1), difference = Some (Fin 0),
        matches = True\<rparr>"
proof -
  have "lit (42 / 100) \<noteq> lit (41 / 100)" by (simp add: lit_def rnd_vals)
  then show ?thesis
    using example_half_cent_first example_half_cent_second example_large_first
      example_large_second
    by (simp add: add_mset_commute)
qed

text \<open>
  C7, amended: for every input at the scale of a bank statement (the balances and the
  valid amounts are decimal numbers with at most two fraction digits, at most 10 000
  valid transactions, magnitudes up to 1 000 000 000) and every permutation of its
  transaction list, \<open>difference\<close> and \<open>matches\<close> are identical and the two values of
  \<open>calculatedEndingBalance\<close> are equal as numbers (\<open>===\<close>; a zero may be \<open>-0\<close> in one
  order and \<open>+0\<close> in another). The sums before the rounding may differ.
\<close>

theorem C7_order_independent:
  assumes "startingBalance d = Some sb" and "endingBalance d = Some eb"
    and "transactions d = Some txs"
    and "statement_scale sb eb txs"
    and "mset txs' = mset txs"
  shows "\<exists>r r' c c'. performReconciliation d = Inr r \<and>
    performReconciliation (d\<lparr>transactions := Some txs'\<rparr>) = Inr r' \<and>
    difference r' = difference r \<and> matches r' = matches r \<and>
    calculatedEndingBalance r = Some c \<and> calculatedEndingBalance r' = Some c' \<and>
    js_strict_eq c' c"
proof -
  let ?d' = "d\<lparr>transactions := Some txs'\<rparr>"
  from statement_scale_mset [OF assms(5,4)]
  have h: "statement_scale sb eb txs'"
    and s: "sum_list (cents_list txs') = sum_list (cents_list txs)" by simp_all
  have p: "startingBalance ?d' = Some sb" "endingBalance ?d' = Some eb"
    "transactions ?d' = Some txs'" using assms(1,2) by simp_all
  from statement_scale_result [OF assms(1,2,3,4)] obtain r c where
    r: "performReconciliation d = Inr r" and c: "calculatedEndingBalance r = Some c"
    and q: "js_strict_eq c (lit (of_int (cents_of sb + sum_list (cents_list txs)) / 100))"
    and x: "difference r =
      Some (lit (of_int (cents_of eb - (cents_of sb + sum_list (cents_list txs))) / 100))"
    and m: "matches r \<longleftrightarrow> \<bar>cents_of eb - (cents_of sb + sum_list (cents_list txs))\<bar> \<le> 1"
    by blast
  from statement_scale_result [OF p h] obtain r' c' where
    r': "performReconciliation ?d' = Inr r'" and c': "calculatedEndingBalance r' = Some c'"
    and q': "js_strict_eq c' (lit (of_int (cents_of sb + sum_list (cents_list txs)) / 100))"
    and x': "difference r' =
      Some (lit (of_int (cents_of eb - (cents_of sb + sum_list (cents_list txs))) / 100))"
    and m': "matches r' \<longleftrightarrow> \<bar>cents_of eb - (cents_of sb + sum_list (cents_list txs))\<bar> \<le> 1"
    unfolding s by blast
  from q q' have e: "js_strict_eq c' c" by (rule js_strict_eq_common)
  from x x' have dx: "difference r' = difference r" by simp
  from m m' have dm: "matches r' = matches r" by simp
  from r r' dx dm c c' e show ?thesis by blast
qed

theorem C7_witness:
  "statement_scale (lit 0) (lit (6 / 10))
     [mk_tx (JNumber (lit (1 / 10))), mk_tx (JNumber (lit (2 / 10))),
      mk_tx (JNumber (lit (3 / 10)))] \<and>
   mset [mk_tx (JNumber (lit (3 / 10))), mk_tx (JNumber (lit (2 / 10))),
         mk_tx (JNumber (lit (1 / 10)))] =
   mset [mk_tx (JNumber (lit (1 / 10))), mk_tx (JNumber (lit (2 / 10))),
         mk_tx (JNumber (lit (3 / 10)))] \<and>
   sumOfTransactions
     [mk_tx (JNumber (lit (1 / 10))), mk_tx (JNumber (lit (2 / 10))),
      mk_tx (JNumber (lit (3 / 10)))] \<noteq>
   sumOfTransactions
     [mk_tx (JNumber (lit (3 / 10))), mk_tx (JNumber (lit (2 / 10))),
      mk_tx (JNumber (lit (1 / 10)))] \<and>
   (\<exists>r r' c c'.
     performReconciliation
       (statement (Some (lit 0)) (Some (lit (6 / 10)))
          (Some [mk_tx (JNumber (lit (1 / 10))), mk_tx (JNumber (lit (2 / 10))),
                 mk_tx (JNumber (lit (3 / 10)))])) = Inr r \<and>
     performReconciliation
       (statement (Some (lit 0)) (Some (lit (6 / 10)))
          (Some [mk_tx (JNumber (lit (3 / 10))), mk_tx (JNumber (lit (2 / 10))),
                 mk_tx (JNumber (lit (1 / 10)))])) = Inr r' \<and>
     difference r' = difference r \<and> matches r' = matches r \<and>
     calculatedEndingBalance r = Some c \<and> calculatedEndingBalance r' = Some c' \<and>
     js_strict_eq c' c)"
proof -
  have h: "statement_scale (lit 0) (lit (6 / 10))
     [mk_tx (JNumber (lit (1 / 10))), mk_tx (JNumber (lit (2 / 10))),
      mk_tx (JNumber (lit (3 / 10)))]"
    by (simp add: statement_scale_def decimal2_def cents_of_def cents_list_def
        validTransactions_def mk_tx_def lit_def rnd_vals)
  have p: "mset [mk_tx (JNumber (lit (3 / 10))), mk_tx (JNumber (lit (2 / 10))),
         mk_tx (JNumber (lit (1 / 10)))] =
     mset [mk_tx (JNumber (lit (1 / 10))), mk_tx (JNumber (lit (2 / 10))),
         mk_tx (JNumber (lit (3 / 10)))]"
    by (simp add: add_mset_commute)
  have e: "statement (Some (lit 0)) (Some (lit (6 / 10)))
      (Some [mk_tx (JNumber (lit (1 / 10))), mk_tx (JNumber (lit (2 / 10))),
             mk_tx (JNumber (lit (3 / 10)))])
      \<lparr>transactions := Some [mk_tx (JNumber (lit (3 / 10))), mk_tx (JNumber (lit (2 / 10))),
             mk_tx (JNumber (lit (1 / 10)))]\<rparr> =
    statement (Some (lit 0)) (Some (lit (6 / 10)))
      (Some [mk_tx (JNumber (lit (3 / 10))), mk_tx (JNumber (lit (2 / 10))),
             mk_tx (JNumber (lit (1 / 10)))])"
    by (simp add: statement_def)
  have i: "startingBalance (statement (Some (lit 0)) (Some (lit (6 / 10)))
      (Some [mk_tx (JNumber (lit (1 / 10))), mk_tx (JNumber (lit (2 / 10))),
             mk_tx (JNumber (lit (3 / 10)))])) = Some (lit 0)"
    "endingBalance (statement (Some (lit 0)) (Some (lit (6 / 10)))
      (Some [mk_tx (JNumber (lit (1 / 10))), mk_tx (JNumber (lit (2 / 10))),
             mk_tx (JNumber (lit (3 / 10)))])) = Some (lit (6 / 10))"
    "transactions (statement (Some (lit 0)) (Some (lit (6 / 10)))
      (Some [mk_tx (JNumber (lit (1 / 10))), mk_tx (JNumber (lit (2 / 10))),
             mk_tx (JNumber (lit (3 / 10)))])) =
      Some [mk_tx (JNumber (lit (1 / 10))), mk_tx (JNumber (lit (2 / 10))),
             mk_tx (JNumber (lit (3 / 10)))]"
    by (simp_all add: statement_def)
  from C7_order_independent [OF i h p]
  have "\<exists>r r' c c'.
     performReconciliation
       (statement (Some (lit 0)) (Some (lit (6 / 10)))
          (Some [mk_tx (JNumber (lit (1 / 10))), mk_tx (JNumber (lit (2 / 10))),
                 mk_tx (JNumber (lit (3 / 10)))])) = Inr r \<and>
     performReconciliation
       (statement (Some (lit 0)) (Some (lit (6 / 10)))
          (Some [mk_tx (JNumber (lit (3 / 10))), mk_tx (JNumber (lit (2 / 10))),
                 mk_tx (JNumber (lit (1 / 10)))])) = Inr r' \<and>
     difference r' = difference r \<and> matches r' = matches r \<and>
     calculatedEndingBalance r = Some c \<and> calculatedEndingBalance r' = Some c' \<and>
     js_strict_eq c' c"
    unfolding e .
  with h p example_tenths_sums show ?thesis by (intro conjI)
qed

text \<open>
  C8, as stated: the Reconciler is total; for every input it returns a result and never
  raises an exception. It fails on the value it is called with (line 466), parsed JSON
  that nothing has validated (line 389): with a \<open>startingBalance\<close> that is the string
  \<open>"1200.00"\<close>, line 421 concatenates and calls \<open>toFixed\<close> on a string, a TypeError;
  with a \<open>null\<close> element in the transaction array, line 415 reads a property of
  \<open>null\<close>, a TypeError.
\<close>

theorem C8_counterexample:
  "performReconciliation_json
     \<lparr>json_transactions = Some [], json_startingBalance = JsonString ''1200.00'',
      json_endingBalance = JsonNumber (lit 1550)\<rparr> = Inl TypeError \<and>
   performReconciliation_json
     \<lparr>json_transactions = Some [ElemObject (mk_tx (JNumber (lit 500))), ElemNull],
      json_startingBalance = JsonNumber (lit 1200),
      json_endingBalance = JsonNumber (lit 1550)\<rparr> = Inl TypeError"
  by (intro conjI) (rule example_string_balance, rule example_null_element)

text \<open>
  C8, amended: on every input of the declared type (each balance a number or \<open>null\<close>,
  the transactions \<open>null\<close> or an array of objects), also with missing data, an empty
  transaction list or only invalid amounts, the Reconciler returns a result and raises no
  exception, and it is the result of lines 403--428 on that input as a JSON value. On a
  JSON value in general, lines 403--428 throw a TypeError when, past the guard of line
  406, an element of the array is \<open>null\<close>, or \<open>startingBalance\<close> is a string, an array
  or an object, or \<open>endingBalance\<close> is not a number; on every other value they return a
  result.
\<close>

theorem C8_total_on_declared_type:
  "(\<exists>r. performReconciliation d = Inr r) \<and>
   performReconciliation_json (to_json d) = performReconciliation d \<and>
   (throws_TypeError j \<longrightarrow> performReconciliation_json j = Inl TypeError) \<and>
   (\<not> throws_TypeError j \<longrightarrow> (\<exists>r. performReconciliation_json j = Inr r))"
proof -
  have t: "\<exists>r. performReconciliation d = Inr r"
  proof (cases "startingBalance d = None \<or> endingBalance d = None \<or> transactions d = None")
    case True
    from performReconciliation_absent [OF this] show ?thesis by blast
  next
    case False
    then obtain sb eb txs where "startingBalance d = Some sb" "endingBalance d = Some eb"
      "transactions d = Some txs" by auto
    from performReconciliation_present [OF this] show ?thesis by blast
  qed
  show ?thesis
    using t performReconciliation_to_json [of d] performReconciliation_json_cases [of j]
    by auto
qed

theorem C8_witness:
  "(\<exists>r. performReconciliation
       (statement (Some (lit 1550)) (Some NaN) (Some [mk_tx NotNumber])) = Inr r) \<and>
   throws_TypeError
     \<lparr>json_transactions = Some [], json_startingBalance = JsonNumber (lit 1200),
      json_endingBalance = JsonString ''1550.00''\<rparr> \<and>
   performReconciliation_json
     \<lparr>json_transactions = Some [], json_startingBalance = JsonNumber (lit 1200),
      json_endingBalance = JsonString ''1550.00''\<rparr> = Inl TypeError \<and>
   \<not> throws_TypeError
     \<lparr>json_transactions = Some [ElemPrimitive, ElemObject (mk_tx NotNumber)],
      json_startingBalance = JsonBoolean True, json_endingBalance = JsonNumber (lit 1)\<rparr> \<and>
   (\<exists>r. performReconciliation_json
       \<lparr>json_transactions = Some [ElemPrimitive, ElemObject (mk_tx NotNumber)],
        json_startingBalance = JsonBoolean True, json_endingBalance = JsonNumber (lit 1)\<rparr> =
     Inr r)"
  using C8_total_on_declared_type [of
      "statement (Some (lit 1550)) (Some NaN) (Some [mk_tx NotNumber])"
      "\<lparr>json_transactions = Some [], json_startingBalance = JsonNumber (lit 1200),
        json_endingBalance = JsonString ''1550.00''\<rparr>"]
    C8_total_on_declared_type [of
      "statement (Some (lit 1550)) (Some NaN) (Some [mk_tx NotNumber])"
      "\<lparr>json_transactions = Some [ElemPrimitive, ElemObject (mk_tx NotNumber)],
        json_startingBalance = JsonBoolean True, json_endingBalance = JsonNumber (lit 1)\<rparr>"]
  by (simp add: throws_TypeError_def)

text \<open>
  C9. For every input, \<open>calculatedEndingBalance\<close> is absent exactly when \<open>difference\<close>
  is absent, and when they are absent \<open>matches\<close> is false: a result never mixes an
  absent numeric field with a present one or with \<open>matches = true\<close>.
\<close>

theorem C9_absent_together:
  assumes "performReconciliation d = Inr r"
  shows "(calculatedEndingBalance r = None \<longleftrightarrow> difference r = None) \<and>
    (calculatedEndingBalance r = None \<or> difference r = None \<longrightarrow> \<not> matches r)"
proof (cases "startingBalance d = None \<or> endingBalance d = None \<or> transactions d = None")
  case True
  from performReconciliation_absent [OF this] assms show ?thesis by auto
next
  case False
  then obtain sb eb txs where "startingBalance d = Some sb" "endingBalance d = Some eb"
    "transactions d = Some txs" by auto
  from performReconciliation_present [OF this] assms show ?thesis by auto
qed

theorem C9_witness:
  "performReconciliation (statement (Some (lit 1200)) None (Some [])) =
     Inr \<lparr>calculatedEndingBalance = None, difference = None, matches = False\<rparr> \<and>
   calculatedEndingBalance
     \<lparr>calculatedEndingBalance = None, difference = None, matches = False\<rparr> = None \<and>
   difference \<lparr>calculatedEndingBalance = None, difference = None, matches = False\<rparr> = None \<and>
   \<not> matches \<lparr>calculatedEndingBalance = None, difference = None, matches = False\<rparr>"
proof -
  have r: "performReconciliation (statement (Some (lit 1200)) None (Some [])) =
     Inr \<lparr>calculatedEndingBalance = None, difference = None, matches = False\<rparr>"
    by (rule performReconciliation_absent) (simp add: statement_def)
  from C9_absent_together [OF r] r show ?thesis by simp
qed

text \<open>
  C10. For every input with both balances and the transaction list present, the returned
  difference is a value rounded to 2 decimal places, so \<open>matches\<close> holds exactly when
  the difference is -0.01, 0 (of either sign) or 0.01: after the rounding the tolerance
  of 1.5 cents is a tolerance of one cent.
\<close>

theorem C10_one_cent_tolerance:
  assumes "startingBalance d = Some sb" and "endingBalance d = Some eb"
    and "transactions d = Some txs"
  shows "\<exists>r. performReconciliation d = Inr r \<and>
    difference r =
      Some (round2 (js_sub (round2 eb) (round2 (js_add sb (sumOfTransactions txs))))) \<and>
    (matches r \<longleftrightarrow>
      difference r \<in> {Some (lit (- (1 / 100))), Some NegZero, Some (Fin 0), Some (lit (1 / 100))})"
  using performReconciliation_present [OF assms]
    round2_tolerance [of "js_sub (round2 eb) (round2 (js_add sb (sumOfTransactions txs)))"]
  by auto

theorem C10_witness:
  "performReconciliation
     (statement (Some (lit 1200)) (Some (lit 1550))
        (Some [mk_tx (JNumber (lit 500)), mk_tx (JNumber (lit (- (15001 / 100))))])) =
   Inr \<lparr>calculatedEndingBalance = Some (lit (154999 / 100)),
        difference = Some (lit (1 / 100)), matches = True\<rparr> \<and>
   Some (lit (1 / 100)) \<in>
     {Some (lit (- (1 / 100))), Some NegZero, Some (Fin 0), Some (lit (1 / 100))}"
  using C10_one_cent_tolerance [of
      "statement (Some (lit 1200)) (Some (lit 1550))
        (Some [mk_tx (JNumber (lit 500)), mk_tx (JNumber (lit (- (15001 / 100))))])"
      "lit 1200" "lit 1550"
      "[mk_tx (JNumber (lit 500)), mk_tx (JNumber (lit (- (15001 / 100))))]"]
    example_within_a_cent
  by simp

end
